theory Spec2Isabelle
  imports Main "HOL-Library.Word"
begin

unbundle bit_operations_syntax

section \<open>The LC-3 simulator of \<^verbatim>\<open>src/lc3/sim.c\<close>\<close>

text \<open>
  A shallow embedding of the simulator. A \<^verbatim>\<open>uint16_t\<close> is a \<open>16 word\<close>: \<open>+\<close> wraps,
  \<open>drop_bit\<close> is \<^verbatim>\<open>>>\<close>, \<open>push_bit\<close> is \<^verbatim>\<open><<\<close>. C computes every \<^verbatim>\<open>uint16_t\<close>
  expression at \<^verbatim>\<open>int\<close> and truncates when the value is stored in a \<^verbatim>\<open>uint16_t\<close>
  again; for \<open>+\<close>, \<open>AND\<close>, \<open>NOT\<close> and \<^verbatim>\<open>>>\<close> truncating afterwards and working on
  16 bits throughout give the same word, so these are written on \<open>16 word\<close>. The one
  left shift of the program, in \<open>sign_extend\<close>, is written at 32 bits as C does it.

  The two global arrays are functions from the index, with the array of memory
  checked against its bound where the C indexes it: an access outside the array is
  undefined behaviour in C and the result \<open>Inl OutOfBounds\<close> here. Every index of
  \<^verbatim>\<open>registers\<close> is a three-bit field or an enumerator below \<^verbatim>\<open>R_COUNT\<close>.

  The embedding covers the machine: memory and the memory-mapped keyboard, the
  registers and flags, the instruction handlers, the traps and the loop of \<^verbatim>\<open>main\<close>.
  The image loader, the terminal mode and the signal handler are left out.
\<close>

type_synonym u16 = "16 word"
type_synonym byte = "8 word"

subsection \<open>Enumerations and constants\<close>

definition R_R0 :: nat where "R_R0 = 0"
definition R_R1 :: nat where "R_R1 = 1"
definition R_R2 :: nat where "R_R2 = 2"
definition R_R3 :: nat where "R_R3 = 3"
definition R_R4 :: nat where "R_R4 = 4"
definition R_R5 :: nat where "R_R5 = 5"
definition R_R6 :: nat where "R_R6 = 6"
definition R_R7 :: nat where "R_R7 = 7"
definition R_PC :: nat where "R_PC = 8"
definition R_COND :: nat where "R_COND = 9"
definition R_COUNT :: nat where "R_COUNT = 10"

definition FL_POS :: u16 where "FL_POS = push_bit 0 1"
definition FL_ZRO :: u16 where "FL_ZRO = push_bit 1 1"
definition FL_NEG :: u16 where "FL_NEG = push_bit 2 1"

definition OP_BR :: u16 where "OP_BR = 0"
definition OP_ADD :: u16 where "OP_ADD = 1"
definition OP_LD :: u16 where "OP_LD = 2"
definition OP_ST :: u16 where "OP_ST = 3"
definition OP_JSR :: u16 where "OP_JSR = 4"
definition OP_AND :: u16 where "OP_AND = 5"
definition OP_LDR :: u16 where "OP_LDR = 6"
definition OP_STR :: u16 where "OP_STR = 7"
definition OP_RTI :: u16 where "OP_RTI = 8"
definition OP_NOT :: u16 where "OP_NOT = 9"
definition OP_LDI :: u16 where "OP_LDI = 10"
definition OP_STI :: u16 where "OP_STI = 11"
definition OP_JMP :: u16 where "OP_JMP = 12"
definition OP_RES :: u16 where "OP_RES = 13"
definition OP_LEA :: u16 where "OP_LEA = 14"
definition OP_TRAP :: u16 where "OP_TRAP = 15"

definition MR_KBSR :: u16 where "MR_KBSR = 0xfe00"
definition MR_KBDR :: u16 where "MR_KBDR = 0xfe02"

definition TRAP_GETC :: u16 where "TRAP_GETC = 0x20"
definition TRAP_OUT :: u16 where "TRAP_OUT = 0x21"
definition TRAP_PUTS :: u16 where "TRAP_PUTS = 0x22"
definition TRAP_IN :: u16 where "TRAP_IN = 0x23"
definition TRAP_PUTSP :: u16 where "TRAP_PUTSP = 0x24"
definition TRAP_HALT :: u16 where "TRAP_HALT = 0x25"

text \<open>\<^verbatim>\<open>#define MEMORY_MAX UINT16_MAX\<close>, and \<^verbatim>\<open>uint16_t memory[MEMORY_MAX]\<close>: the array has
  65535 elements, with the indices 0 to 65534.\<close>

definition UINT16_MAX :: nat where "UINT16_MAX = 65535"
definition MEMORY_MAX :: nat where "MEMORY_MAX = UINT16_MAX"

definition PC_START :: u16 where "PC_START = 0x3000"

subsection \<open>The machine and its console\<close>

text \<open>
  The state the program keeps in globals, the local \<^verbatim>\<open>running\<close> of \<^verbatim>\<open>main\<close>, and the
  console. The program reads its input in two ways that do not see the same thing
  (the \<^verbatim>\<open>__linux__\<close> branch is the one modelled): \<^verbatim>\<open>check_key\<close> asks \<^verbatim>\<open>select()\<close> about
  file descriptor 0, while \<^verbatim>\<open>getchar()\<close> reads the stream \<^verbatim>\<open>stdin\<close>, which keeps a buffer of
  its own and fills it from the descriptor with one \<^verbatim>\<open>read()\<close> when it is empty. So the
  input is kept in two places:
  \<^item> \<open>fd0\<close>, the bytes that have arrived on descriptor 0 and were not read from it, and
    \<open>fd0_eof\<close>, whether the descriptor is at its end once these are read;
  \<^item> \<open>stdin_buf\<close>, the bytes that the stream has read from the descriptor and not yet
    handed out, and \<open>bufsiz\<close>, the size of the stream's buffer (the most one \<^verbatim>\<open>read()\<close>
    takes; an unbuffered stream takes one byte).
  \<open>stdout\<close> holds the bytes written so far. \<open>char_signed\<close> says whether the platform's
  plain \<^verbatim>\<open>char\<close> is signed, which C leaves to the implementation. No instruction
  changes \<open>bufsiz\<close>, \<open>fd0_eof\<close> or \<open>char_signed\<close>.
\<close>

record machine =
  memory :: "nat \<Rightarrow> u16"
  registers :: "nat \<Rightarrow> u16"
  running :: bool
  stdin_buf :: "byte list"
  fd0 :: "byte list"
  fd0_eof :: bool
  bufsiz :: nat
  stdout :: "byte list"
  char_signed :: bool

text \<open>What ends a step other than by finishing it: an access outside \<^verbatim>\<open>memory\<close>, the
  call of \<^verbatim>\<open>abort()\<close>, and a \<^verbatim>\<open>getchar()\<close> that waits for input that has not arrived.\<close>

datatype error = OutOfBounds | Aborted | WouldBlock

definition set_reg :: "nat \<Rightarrow> u16 \<Rightarrow> machine \<Rightarrow> machine" where
  "set_reg r v s = s\<lparr>registers := (registers s)(r := v)\<rparr>"

definition set_mem :: "nat \<Rightarrow> u16 \<Rightarrow> machine \<Rightarrow> machine" where
  "set_mem i v s = s\<lparr>memory := (memory s)(i := v)\<rparr>"

text \<open>\<^verbatim>\<open>select()\<close> on descriptor 0 with a zero timeout, compared with 0: the descriptor is
  readable when bytes are pending on it, and also at its end, where a \<^verbatim>\<open>read()\<close> returns
  at once. What the stream holds in its buffer is not seen. (An error return of
  \<^verbatim>\<open>select()\<close>, which is not 0 either, is left out.)\<close>

definition check_key :: "machine \<Rightarrow> bool" where
  "check_key s = (fd0 s \<noteq> [] \<or> fd0_eof s)"

text \<open>\<^verbatim>\<open>EOF\<close> is a negative \<^verbatim>\<open>int\<close>; the C library of the platform has -1.\<close>

definition EOF :: int where "EOF = - 1"

text \<open>\<^verbatim>\<open>getchar()\<close> hands out the next byte of the buffer as an \<^verbatim>\<open>unsigned char\<close>. With the
  buffer empty it reads the descriptor: up to \<open>bufsiz\<close> of the pending bytes move to the
  buffer and the first is handed out; at the end of the input the result is \<^verbatim>\<open>EOF\<close>; with
  nothing pending the call waits.\<close>

definition getchar :: "machine \<Rightarrow> error + (int \<times> machine)" where
  "getchar s =
     (case stdin_buf s of
        c # cs \<Rightarrow> Inr (uint c, s\<lparr>stdin_buf := cs\<rparr>)
      | [] \<Rightarrow>
          (case fd0 s of
             c # cs \<Rightarrow>
               Inr (uint c, s\<lparr>stdin_buf := take (bufsiz s - 1) cs,
                                 fd0 := drop (bufsiz s - 1) cs\<rparr>)
           | [] \<Rightarrow> if fd0_eof s then Inr (EOF, s) else Inl WouldBlock))"

text \<open>\<^verbatim>\<open>putc\<close> writes its argument converted to \<^verbatim>\<open>unsigned char\<close>.\<close>

definition putc :: "byte \<Rightarrow> machine \<Rightarrow> machine" where
  "putc c s = s\<lparr>stdout := stdout s @ [c]\<rparr>"

definition print_string :: "string \<Rightarrow> machine \<Rightarrow> machine" where
  "print_string str s = s\<lparr>stdout := stdout s @ map of_char str\<rparr>"

text \<open>The conversion of an \<^verbatim>\<open>int\<close> to plain \<^verbatim>\<open>char\<close>, as a value.\<close>

definition to_char :: "bool \<Rightarrow> int \<Rightarrow> int" where
  "to_char is_signed c = (if is_signed then signed_take_bit 7 c else take_bit 8 c)"

subsection \<open>Helpers\<close>

text \<open>\<^verbatim>\<open>0xFFFF << bit_count\<close> is computed at \<^verbatim>\<open>int\<close> (32 bits) and the result of the
  \<^verbatim>\<open>|=\<close> is truncated to 16 bits. The callers pass 5, 6, 9 and 11.\<close>

definition sign_extend :: "u16 \<Rightarrow> nat \<Rightarrow> u16" where
  "sign_extend x bit_count =
     (if drop_bit (bit_count - 1) x AND 1 \<noteq> 0
      then ucast ((ucast x :: 32 word) OR push_bit bit_count (0xFFFF :: 32 word))
      else x)"

definition swap16 :: "u16 \<Rightarrow> u16" where
  "swap16 x = push_bit 8 x OR drop_bit 8 x"

definition update_flags :: "nat \<Rightarrow> machine \<Rightarrow> machine" where
  "update_flags r s =
     (if registers s r = 0 then set_reg R_COND FL_ZRO s
      else if drop_bit 15 (registers s r) \<noteq> 0 then set_reg R_COND FL_NEG s
      else set_reg R_COND FL_POS s)"

subsection \<open>Memory and the memory-mapped keyboard\<close>

definition mem_write :: "u16 \<Rightarrow> u16 \<Rightarrow> machine \<Rightarrow> error + machine" where
  "mem_write address val s =
     (if unat address < MEMORY_MAX then Inr (set_mem (unat address) val s)
      else Inl OutOfBounds)"

definition mem_read :: "u16 \<Rightarrow> machine \<Rightarrow> error + (u16 \<times> machine)" where
  "mem_read address s =
     (case (if address = MR_KBSR
            then (if check_key s
                  then (case getchar (set_mem (unat MR_KBSR) (push_bit 15 1) s) of
                          Inl e \<Rightarrow> Inl e
                        | Inr (c, s') \<Rightarrow> Inr (set_mem (unat MR_KBDR) (word_of_int c) s'))
                  else Inr (set_mem (unat MR_KBSR) 0 s))
            else Inr s) of
        Inl e \<Rightarrow> Inl e
      | Inr s' \<Rightarrow>
          (if unat address < MEMORY_MAX then Inr (memory s' (unat address), s')
           else Inl OutOfBounds))"

subsection \<open>The instruction handlers\<close>

definition cmd_add :: "u16 \<Rightarrow> machine \<Rightarrow> machine" where
  "cmd_add instr s =
     (let dr = unat (drop_bit 9 instr AND 0x7);
          sr1 = unat (drop_bit 6 instr AND 0x7);
          imm_flag = drop_bit 5 instr AND 0x1
      in update_flags dr
           (if imm_flag \<noteq> 0
            then (let imm5 = sign_extend (instr AND 0x1f) 5
                  in set_reg dr (registers s sr1 + imm5) s)
            else (let sr2 = unat (instr AND 0x7)
                  in set_reg dr (registers s sr1 + registers s sr2) s)))"

definition cmd_and :: "u16 \<Rightarrow> machine \<Rightarrow> machine" where
  "cmd_and instr s =
     (let dr = unat (drop_bit 9 instr AND 0x7);
          sr1 = unat (drop_bit 6 instr AND 0x7);
          imm_flag = drop_bit 5 instr AND 0x1
      in update_flags dr
           (if imm_flag \<noteq> 0
            then (let imm5 = sign_extend (instr AND 0x1f) 5
                  in set_reg dr (registers s sr1 AND imm5) s)
            else (let sr2 = unat (instr AND 0x7)
                  in set_reg dr (registers s sr1 AND registers s sr2) s)))"

definition cmd_not :: "u16 \<Rightarrow> machine \<Rightarrow> machine" where
  "cmd_not instr s =
     (let dr = unat (drop_bit 9 instr AND 0x7);
          sr = unat (drop_bit 6 instr AND 0x7)
      in update_flags dr (set_reg dr (NOT (registers s sr)) s))"

definition cmd_br :: "u16 \<Rightarrow> machine \<Rightarrow> machine" where
  "cmd_br instr s =
     (let pc_offset = sign_extend (instr AND 0x1ff) 9;
          cond_flag = drop_bit 9 instr AND 0x7
      in if cond_flag AND registers s R_COND \<noteq> 0
         then set_reg R_PC (registers s R_PC + pc_offset) s
         else s)"

definition cmd_jmp :: "u16 \<Rightarrow> machine \<Rightarrow> machine" where
  "cmd_jmp instr s =
     (let sr1 = unat (drop_bit 6 instr AND 0x7)
      in set_reg R_PC (registers s sr1) s)"

definition cmd_jsr :: "u16 \<Rightarrow> machine \<Rightarrow> machine" where
  "cmd_jsr instr s =
     (let long_flag = drop_bit 11 instr AND 1;
          s1 = set_reg R_R7 (registers s R_PC) s
      in if long_flag \<noteq> 0
         then (let long_pc_offset = sign_extend (instr AND 0x7ff) 11
               in set_reg R_PC (registers s1 R_PC + long_pc_offset) s1)
         else (let sr1 = unat (drop_bit 6 instr AND 0x7)
               in set_reg R_PC (registers s1 sr1) s1))"

definition cmd_ld :: "u16 \<Rightarrow> machine \<Rightarrow> error + machine" where
  "cmd_ld instr s =
     (let dr = unat (drop_bit 9 instr AND 0x7);
          pc_offset = sign_extend (instr AND 0x1ff) 9
      in case mem_read (registers s R_PC + pc_offset) s of
           Inl e \<Rightarrow> Inl e
         | Inr (v, s1) \<Rightarrow> Inr (update_flags dr (set_reg dr v s1)))"

definition cmd_ldi :: "u16 \<Rightarrow> machine \<Rightarrow> error + machine" where
  "cmd_ldi instr s =
     (let dr = unat (drop_bit 9 instr AND 0x7);
          pc_offset = sign_extend (instr AND 0x1ff) 9
      in case mem_read (registers s R_PC + pc_offset) s of
           Inl e \<Rightarrow> Inl e
         | Inr (a, s1) \<Rightarrow>
             (case mem_read a s1 of
                Inl e \<Rightarrow> Inl e
              | Inr (v, s2) \<Rightarrow> Inr (update_flags dr (set_reg dr v s2))))"

definition cmd_ldr :: "u16 \<Rightarrow> machine \<Rightarrow> error + machine" where
  "cmd_ldr instr s =
     (let dr = unat (drop_bit 9 instr AND 0x7);
          sr1 = unat (drop_bit 6 instr AND 0x7);
          offset = sign_extend (instr AND 0x3f) 6
      in case mem_read (registers s sr1 + offset) s of
           Inl e \<Rightarrow> Inl e
         | Inr (v, s1) \<Rightarrow> Inr (update_flags dr (set_reg dr v s1)))"

definition cmd_lea :: "u16 \<Rightarrow> machine \<Rightarrow> machine" where
  "cmd_lea instr s =
     (let dr = unat (drop_bit 9 instr AND 0x7);
          pc_offset = sign_extend (instr AND 0x1ff) 9
      in update_flags dr (set_reg dr (registers s R_PC + pc_offset) s))"

definition cmd_st :: "u16 \<Rightarrow> machine \<Rightarrow> error + machine" where
  "cmd_st instr s =
     (let dr = unat (drop_bit 9 instr AND 0x7);
          pc_offset = sign_extend (instr AND 0x1ff) 9
      in mem_write (registers s R_PC + pc_offset) (registers s dr) s)"

definition cmd_sti :: "u16 \<Rightarrow> machine \<Rightarrow> error + machine" where
  "cmd_sti instr s =
     (let dr = unat (drop_bit 9 instr AND 0x7);
          pc_offset = sign_extend (instr AND 0x1ff) 9
      in case mem_read (registers s R_PC + pc_offset) s of
           Inl e \<Rightarrow> Inl e
         | Inr (a, s1) \<Rightarrow> mem_write a (registers s1 dr) s1)"

definition cmd_str :: "u16 \<Rightarrow> machine \<Rightarrow> error + machine" where
  "cmd_str instr s =
     (let dr = unat (drop_bit 9 instr AND 0x7);
          sr1 = unat (drop_bit 6 instr AND 0x7);
          offset = sign_extend (instr AND 0x3f) 6
      in mem_write (registers s sr1 + offset) (registers s dr) s)"

subsection \<open>Traps\<close>

text \<open>
  The two output loops walk a pointer up the array from \<^verbatim>\<open>memory + registers[R_R0]\<close>
  until they read a zero word. The pointer does not wrap: a string with no zero word
  before the end of the array is read past the end.
\<close>

function puts_loop :: "nat \<Rightarrow> machine \<Rightarrow> error + machine" where
  "puts_loop c s =
     (if MEMORY_MAX \<le> c then Inl OutOfBounds
      else if memory s c = 0 then Inr s
      else puts_loop (Suc c) (putc (ucast (memory s c)) s))"
  by pat_completeness auto
termination
  by (relation "measure (\<lambda>(c, s). MEMORY_MAX - c)") auto

function putsp_loop :: "nat \<Rightarrow> machine \<Rightarrow> error + machine" where
  "putsp_loop c s =
     (if MEMORY_MAX \<le> c then Inl OutOfBounds
      else if memory s c = 0 then Inr s
      else (let char1 = (ucast (memory s c AND 0xff) :: byte);
                s1 = putc char1 s;
                char2 = (ucast (drop_bit 8 (memory s c)) :: byte);
                s2 = (if char2 \<noteq> 0 then putc char2 s1 else s1)
            in putsp_loop (Suc c) s2))"
  by pat_completeness auto
termination
  by (relation "measure (\<lambda>(c, s). MEMORY_MAX - c)") auto

declare puts_loop.simps [simp del]
declare putsp_loop.simps [simp del]

text \<open>What one turn of the loop of TRAP PUTSP writes for the word \<open>w\<close>: \<^verbatim>\<open>char1\<close>, and
  \<^verbatim>\<open>char2\<close> when it is not zero.\<close>

definition putsp_bytes :: "u16 \<Rightarrow> byte list" where
  "putsp_bytes w =
     (ucast (w AND 0xff) :: byte)
       # (if (ucast (drop_bit 8 w) :: byte) \<noteq> 0 then [ucast (drop_bit 8 w)] else [])"

definition cmd_trap :: "u16 \<Rightarrow> machine \<Rightarrow> error + machine" where
  "cmd_trap instr s0 =
     (let s = set_reg R_R7 (registers s0 R_PC) s0;
          vec = instr AND 0xFF
      in if vec = TRAP_GETC then
           (case getchar s of
              Inl e \<Rightarrow> Inl e
            | Inr (c, s1) \<Rightarrow> Inr (update_flags R_R0 (set_reg R_R0 (word_of_int c) s1)))
         else if vec = TRAP_OUT then
           Inr (putc (ucast (registers s R_R0)) s)
         else if vec = TRAP_PUTS then
           puts_loop (unat (registers s R_R0)) s
         else if vec = TRAP_IN then
           (case getchar (print_string ''Enter a character: '' s) of
              Inl e \<Rightarrow> Inl e
            | Inr (ch, s1) \<Rightarrow>
                (let c = to_char (char_signed s1) ch;
                     s2 = putc (word_of_int c) s1
                 in Inr (update_flags R_R0 (set_reg R_R0 (word_of_int c) s2))))
         else if vec = TRAP_PUTSP then
           putsp_loop (unat (registers s R_R0)) s
         else if vec = TRAP_HALT then
           Inr ((print_string (''HALT'' @ [CHR 0x0A]) s)\<lparr>running := False\<rparr>)
         else Inr s)"

subsection \<open>The loop of \<^verbatim>\<open>main\<close>\<close>

text \<open>
  The \<^verbatim>\<open>switch\<close> on the opcode. \<^verbatim>\<open>OP_RES\<close>, \<^verbatim>\<open>OP_RTI\<close> and \<^verbatim>\<open>default\<close> call \<^verbatim>\<open>abort()\<close>.
\<close>

definition dispatch :: "u16 \<Rightarrow> machine \<Rightarrow> error + machine" where
  "dispatch instr s =
     (let op = drop_bit 12 instr
      in if op = OP_ADD then Inr (cmd_add instr s)
         else if op = OP_AND then Inr (cmd_and instr s)
         else if op = OP_NOT then Inr (cmd_not instr s)
         else if op = OP_BR then Inr (cmd_br instr s)
         else if op = OP_JMP then Inr (cmd_jmp instr s)
         else if op = OP_JSR then Inr (cmd_jsr instr s)
         else if op = OP_LD then cmd_ld instr s
         else if op = OP_LDI then cmd_ldi instr s
         else if op = OP_LDR then cmd_ldr instr s
         else if op = OP_LEA then Inr (cmd_lea instr s)
         else if op = OP_ST then cmd_st instr s
         else if op = OP_STI then cmd_sti instr s
         else if op = OP_STR then cmd_str instr s
         else if op = OP_TRAP then cmd_trap instr s
         else Inl Aborted)"

text \<open>
  One turn of the loop. In \<^verbatim>\<open>mem_read(registers[R_PC]++)\<close> the argument is the old
  value of the program counter, and the increment is complete before \<^verbatim>\<open>mem_read\<close> is
  entered.
\<close>

definition fetch :: "machine \<Rightarrow> error + (u16 \<times> machine)" where
  "fetch s = mem_read (registers s R_PC) (set_reg R_PC (registers s R_PC + 1) s)"

definition step :: "machine \<Rightarrow> error + machine" where
  "step s =
     (case fetch s of
        Inl e \<Rightarrow> Inl e
      | Inr (instr, s1) \<Rightarrow> dispatch instr s1)"

text \<open>\<^verbatim>\<open>while (running)\<close> with fuel, since a program may run for ever: \<open>None\<close> when the
  fuel is used up, \<open>Some (Inr s)\<close> when the loop is left with \<^verbatim>\<open>running == 0\<close>, and
  \<open>Some (Inl e)\<close> when a step ends the process.\<close>

fun run :: "nat \<Rightarrow> machine \<Rightarrow> (error + machine) option" where
  "run 0 s = (if running s then None else Some (Inr s))"
| "run (Suc n) s =
     (if running s
      then (case step s of Inl e \<Rightarrow> Some (Inl e) | Inr s' \<Rightarrow> run n s')
      else Some (Inr s))"

text \<open>The state in which \<^verbatim>\<open>main\<close> enters the loop, for a loaded image \<open>img\<close> (the globals
  are zero at the start), the bytes \<open>inp\<close> pending on descriptor 0, not at its end, and
  a stream buffer of \<open>bsz\<close> bytes, still empty.\<close>

definition boot :: "(nat \<Rightarrow> u16) \<Rightarrow> byte list \<Rightarrow> nat \<Rightarrow> bool \<Rightarrow> machine" where
  "boot img inp bsz is_signed =
     \<lparr>memory = img,
      registers = ((\<lambda>_. 0)(R_COND := FL_ZRO))(R_PC := PC_START),
      running = True, stdin_buf = [], fd0 = inp, fd0_eof = False, bufsiz = bsz,
      stdout = [], char_signed = is_signed\<rparr>"

text \<open>The state in which \<^verbatim>\<open>main\<close> enters the loop when the image is the one word \<open>w\<close> at
  \<open>PC_START\<close> and nothing is pending on the input: the machine about to run the
  instruction \<open>w\<close>.\<close>

definition one_instr :: "u16 \<Rightarrow> machine" where
  "one_instr w = boot ((\<lambda>_. 0)(unat PC_START := w)) [] 1024 True"

text \<open>
  TRAP PUTSP as the specification words it, on the words from the address in register
  0 on: two characters a word, the low byte and then the high byte if it is not zero;
  the sequence ends at the first zero word, and a word with a zero low byte and a
  nonzero high byte ends it too.
\<close>

fun putsp_spec :: "u16 list \<Rightarrow> byte list" where
  "putsp_spec [] = []"
| "putsp_spec (w # ws) =
     (if w = 0 then []
      else if (ucast (w AND 0xff) :: byte) = 0 then []
      else (ucast (w AND 0xff) :: byte)
             # (if (ucast (drop_bit 8 w) :: byte) \<noteq> 0
                then ucast (drop_bit 8 w) # putsp_spec ws
                else putsp_spec ws))"

text \<open>The machine about to run TRAP PUTSP (the word 0xF024) with register 0 at 0x3001,
  where the words 0x4100, 0x0042 and 0 lie: the first has a zero low byte and the high
  byte 0x41.\<close>

definition putsp_example :: machine where
  "putsp_example =
     set_reg R_R0 0x3001 (set_mem 0x3002 0x0042 (set_mem 0x3001 0x4100 (one_instr 0xF024)))"

section \<open>Basic facts\<close>

lemmas reg_defs = R_R0_def R_R1_def R_R2_def R_R3_def R_R4_def R_R5_def R_R6_def R_R7_def
  R_PC_def R_COND_def R_COUNT_def
lemmas fl_defs = FL_POS_def FL_ZRO_def FL_NEG_def
lemmas op_defs = OP_BR_def OP_ADD_def OP_LD_def OP_ST_def OP_JSR_def OP_AND_def OP_LDR_def
  OP_STR_def OP_RTI_def OP_NOT_def OP_LDI_def OP_STI_def OP_JMP_def OP_RES_def OP_LEA_def
  OP_TRAP_def
lemmas mr_defs = MR_KBSR_def MR_KBDR_def
lemmas trap_defs = TRAP_GETC_def TRAP_OUT_def TRAP_PUTS_def TRAP_IN_def TRAP_PUTSP_def
  TRAP_HALT_def
lemmas mem_defs = MEMORY_MAX_def UINT16_MAX_def

lemma boot_running: "running (boot img inp bsz is_signed)"
  by (simp add: boot_def)

lemma registers_set_reg [simp]: "registers (set_reg r v s) = (registers s)(r := v)"
  and memory_set_reg [simp]: "memory (set_reg r v s) = memory s"
  and running_set_reg [simp]: "running (set_reg r v s) = running s"
  and stdin_buf_set_reg [simp]: "stdin_buf (set_reg r v s) = stdin_buf s"
  and fd0_set_reg [simp]: "fd0 (set_reg r v s) = fd0 s"
  and fd0_eof_set_reg [simp]: "fd0_eof (set_reg r v s) = fd0_eof s"
  and bufsiz_set_reg [simp]: "bufsiz (set_reg r v s) = bufsiz s"
  and stdout_set_reg [simp]: "stdout (set_reg r v s) = stdout s"
  and char_signed_set_reg [simp]: "char_signed (set_reg r v s) = char_signed s"
  by (simp_all add: set_reg_def)

lemma registers_set_mem [simp]: "registers (set_mem i v s) = registers s"
  and memory_set_mem [simp]: "memory (set_mem i v s) = (memory s)(i := v)"
  and running_set_mem [simp]: "running (set_mem i v s) = running s"
  and stdin_buf_set_mem [simp]: "stdin_buf (set_mem i v s) = stdin_buf s"
  and fd0_set_mem [simp]: "fd0 (set_mem i v s) = fd0 s"
  and fd0_eof_set_mem [simp]: "fd0_eof (set_mem i v s) = fd0_eof s"
  and bufsiz_set_mem [simp]: "bufsiz (set_mem i v s) = bufsiz s"
  and stdout_set_mem [simp]: "stdout (set_mem i v s) = stdout s"
  and char_signed_set_mem [simp]: "char_signed (set_mem i v s) = char_signed s"
  by (simp_all add: set_mem_def)

lemma registers_putc [simp]: "registers (putc c s) = registers s"
  and memory_putc [simp]: "memory (putc c s) = memory s"
  and running_putc [simp]: "running (putc c s) = running s"
  and stdin_buf_putc [simp]: "stdin_buf (putc c s) = stdin_buf s"
  and fd0_putc [simp]: "fd0 (putc c s) = fd0 s"
  and fd0_eof_putc [simp]: "fd0_eof (putc c s) = fd0_eof s"
  and bufsiz_putc [simp]: "bufsiz (putc c s) = bufsiz s"
  and stdout_putc [simp]: "stdout (putc c s) = stdout s @ [c]"
  and char_signed_putc [simp]: "char_signed (putc c s) = char_signed s"
  by (simp_all add: putc_def)

lemma getchar_ready:
  "check_key s \<or> stdin_buf s \<noteq> [] \<Longrightarrow> \<exists>c s'. getchar s = Inr (c, s')"
  by (auto simp: check_key_def getchar_def split: list.splits)

lemma getchar_waits:
  "stdin_buf s = [] \<Longrightarrow> fd0 s = [] \<Longrightarrow> \<not> fd0_eof s \<Longrightarrow> getchar s = Inl WouldBlock"
  by (simp add: getchar_def)

lemma mem_read_plain:
  "address \<noteq> MR_KBSR \<Longrightarrow>
     mem_read address s =
       (if unat address < MEMORY_MAX then Inr (memory s (unat address), s) else Inl OutOfBounds)"
  by (simp add: mem_read_def)

lemma mem_read_registers:
  "mem_read address s = Inr (v, s') \<Longrightarrow>
     registers s' = registers s \<and> running s' = running s \<and> stdout s' = stdout s
       \<and> char_signed s' = char_signed s"
  by (auto simp: mem_read_def check_key_def getchar_def split: if_splits list.splits)

lemma mem_read_in_bounds:
  "unat a < MEMORY_MAX \<Longrightarrow> \<exists>v s'. mem_read a s = Inr (v, s')"
  by (auto simp: mem_read_def check_key_def getchar_def split: list.splits)

lemma mem_read_out_of_bounds:
  "\<not> unat a < MEMORY_MAX \<Longrightarrow> mem_read a s = Inl OutOfBounds"
  by (auto simp: mem_read_def mem_defs mr_defs)


lemma getchar_returns:
  "\<not> (stdin_buf s = [] \<and> fd0 s = [] \<and> \<not> fd0_eof s) \<Longrightarrow> \<exists>c s'. getchar s = Inr (c, s')"
  by (auto simp: getchar_def split: list.splits)

lemma print_string_fields [simp]:
  "registers (print_string str s) = registers s" "memory (print_string str s) = memory s"
  "running (print_string str s) = running s" "stdin_buf (print_string str s) = stdin_buf s"
  "fd0 (print_string str s) = fd0 s" "fd0_eof (print_string str s) = fd0_eof s"
  "bufsiz (print_string str s) = bufsiz s" "char_signed (print_string str s) = char_signed s"
  by (simp_all add: print_string_def)

lemma unat_and_7: "unat ((x :: u16) AND 0x7) < 8"
  using word_and_le1 [of x 7] by (simp add: word_le_nat_alt)

lemma field_not_special:
  "unat ((x :: u16) AND 0x7) \<noteq> R_PC" "unat ((x :: u16) AND 0x7) \<noteq> R_COND"
  using unat_and_7 [of x] by (simp_all add: reg_defs)

lemma top_bit_16: "drop_bit 15 (w :: u16) \<noteq> 0 \<longleftrightarrow> bit w 15"
proof -
  have "drop_bit 15 w = of_bool (bit w 15)"
  proof (rule bit_word_eqI)
    fix n
    show "bit (drop_bit 15 w) n = bit (of_bool (bit w 15) :: u16) n"
    proof (cases "n = 0")
      case True
      then show ?thesis by (simp add: bit_simps)
    next
      case False
      then have "\<not> bit w (15 + n)"
        using bit_imp_le_length [of w "15 + n"] by auto
      with False show ?thesis by (simp add: bit_simps)
    qed
  qed
  then show ?thesis by simp
qed

lemma update_flags_registers:
  "registers (update_flags r s) =
     (registers s)(R_COND := (if registers s r = 0 then FL_ZRO
                               else if bit (registers s r) 15 then FL_NEG else FL_POS))"
  by (simp add: update_flags_def top_bit_16)

lemma update_flags_other [simp]:
  "memory (update_flags r s) = memory s" "running (update_flags r s) = running s"
  "stdin_buf (update_flags r s) = stdin_buf s" "fd0 (update_flags r s) = fd0 s"
  "fd0_eof (update_flags r s) = fd0_eof s" "bufsiz (update_flags r s) = bufsiz s"
  "stdout (update_flags r s) = stdout s"
  "char_signed (update_flags r s) = char_signed s"
  by (simp_all add: update_flags_def)

lemma update_flags_cond:
  assumes "r \<noteq> R_COND" and "s' = update_flags r s"
  shows "registers s' R_COND =
           (if registers s' r = 0 then FL_ZRO else if bit (registers s' r) 15 then FL_NEG else FL_POS)"
  using assms by (simp add: update_flags_registers)

lemma fetch_registers:
  assumes "fetch s = Inr (instr, s1)"
  shows "registers s1 = (registers s)(R_PC := registers s R_PC + 1)"
  using mem_read_registers [OF assms [unfolded fetch_def]] by simp

lemma step_dispatch: "fetch s = Inr (instr, s1) \<Longrightarrow> step s = dispatch instr s1"
  by (simp add: step_def)

lemma dispatch_ADD: "drop_bit 12 instr = OP_ADD \<Longrightarrow> dispatch instr s = Inr (cmd_add instr s)"
  and dispatch_AND: "drop_bit 12 instr = OP_AND \<Longrightarrow> dispatch instr s = Inr (cmd_and instr s)"
  and dispatch_NOT: "drop_bit 12 instr = OP_NOT \<Longrightarrow> dispatch instr s = Inr (cmd_not instr s)"
  and dispatch_BR: "drop_bit 12 instr = OP_BR \<Longrightarrow> dispatch instr s = Inr (cmd_br instr s)"
  and dispatch_JMP: "drop_bit 12 instr = OP_JMP \<Longrightarrow> dispatch instr s = Inr (cmd_jmp instr s)"
  and dispatch_JSR: "drop_bit 12 instr = OP_JSR \<Longrightarrow> dispatch instr s = Inr (cmd_jsr instr s)"
  and dispatch_LD: "drop_bit 12 instr = OP_LD \<Longrightarrow> dispatch instr s = cmd_ld instr s"
  and dispatch_LDI: "drop_bit 12 instr = OP_LDI \<Longrightarrow> dispatch instr s = cmd_ldi instr s"
  and dispatch_LDR: "drop_bit 12 instr = OP_LDR \<Longrightarrow> dispatch instr s = cmd_ldr instr s"
  and dispatch_LEA: "drop_bit 12 instr = OP_LEA \<Longrightarrow> dispatch instr s = Inr (cmd_lea instr s)"
  and dispatch_ST: "drop_bit 12 instr = OP_ST \<Longrightarrow> dispatch instr s = cmd_st instr s"
  and dispatch_STI: "drop_bit 12 instr = OP_STI \<Longrightarrow> dispatch instr s = cmd_sti instr s"
  and dispatch_STR: "drop_bit 12 instr = OP_STR \<Longrightarrow> dispatch instr s = cmd_str instr s"
  and dispatch_TRAP: "drop_bit 12 instr = OP_TRAP \<Longrightarrow> dispatch instr s = cmd_trap instr s"
  and dispatch_RTI: "drop_bit 12 instr = OP_RTI \<Longrightarrow> dispatch instr s = Inl Aborted"
  and dispatch_RES: "drop_bit 12 instr = OP_RES \<Longrightarrow> dispatch instr s = Inl Aborted"
  by (simp_all add: dispatch_def op_defs)

lemma flags_distinct: "FL_NEG \<noteq> FL_ZRO \<and> FL_ZRO \<noteq> FL_POS \<and> FL_NEG \<noteq> FL_POS"
  by (simp add: fl_defs)

lemmas cmd_defs = cmd_add_def cmd_and_def cmd_not_def cmd_br_def cmd_jmp_def cmd_jsr_def
  cmd_ld_def cmd_ldi_def cmd_ldr_def cmd_lea_def cmd_st_def cmd_sti_def cmd_str_def cmd_trap_def

lemmas eval_defs = one_instr_def boot_def fetch_def step_def dispatch_def cmd_defs mem_read_def mem_write_def
  update_flags_def set_reg_def set_mem_def putc_def print_string_def getchar_def check_key_def EOF_def
  to_char_def sign_extend_def PC_START_def reg_defs fl_defs op_defs mr_defs trap_defs mem_defs Let_def

lemma run_step_error: "running s \<Longrightarrow> step s = Inl e \<Longrightarrow> run (Suc n) s = Some (Inl e)"
  by simp

lemma run_step: "running s \<Longrightarrow> step s = Inr s' \<Longrightarrow> run (Suc n) s = run n s'"
  by simp

lemma run_halted: "\<not> running s \<Longrightarrow> run n s = Some (Inr s)"
  by (cases n) simp_all

lemma set_reg_same [simp]: "set_reg r (registers s r) s = s"
  by (simp add: set_reg_def)

section \<open>Sign extension\<close>

lemma word_ffff_mask: "(0xFFFF :: 'a::len word) = mask 16"
  by (simp add: mask_eq_exp_minus_1)

text \<open>The detour of the \<^verbatim>\<open>|=\<close> through \<^verbatim>\<open>int\<close> changes nothing in the low 16 bits.\<close>

lemma sign_extend_or_16:
  "(ucast ((ucast (x :: u16) :: 32 word) OR push_bit n 0xFFFF) :: u16) = x OR push_bit n 0xFFFF"
  unfolding word_ffff_mask
  by (rule bit_word_eqI) (auto simp: bit_simps)

lemma sign_extend_alt:
  "sign_extend x n = (if bit x (n - 1) then x OR push_bit n 0xFFFF else x)"
  unfolding sign_extend_def sign_extend_or_16
  by (simp add: bit_iff_and_drop_bit_eq_1 and_one_eq)

lemma sign_extend_low_bits:
  assumes "x < 2 ^ w"
  shows "sign_extend x w AND mask w = x"
proof -
  have low: "take_bit w x = x"
    using less_mask_eq [OF assms] by (simp add: take_bit_eq_mask)
  have "take_bit w (push_bit w (0xFFFF :: u16)) = 0"
    by (simp add: take_bit_push_bit)
  then show ?thesis
    unfolding sign_extend_alt by (simp add: low flip: take_bit_eq_mask)
qed

text \<open>
  C8. For each of the field widths 5, 6, 9 and 11 and every value \<open>x\<close> that fits in
  \<open>w\<close> bits, masking \<open>sign_extend x w\<close> to its low \<open>w\<close> bits gives \<open>x\<close> back.
\<close>

theorem sign_extend_round_trip:
  "w \<in> {5, 6, 9, 11} \<Longrightarrow> x < 2 ^ w \<Longrightarrow> sign_extend x w AND mask w = x"
  by (rule sign_extend_low_bits)

theorem sign_extend_round_trip_witness:
  "(5 :: nat) \<in> {5, 6, 9, 11} \<and> (0x1F :: u16) < 2 ^ 5 \<and> sign_extend 0x1F 5 = 0xFFFF
     \<and> sign_extend 0x1F 5 AND mask 5 = 0x1F
   \<and> (6 :: nat) \<in> {5, 6, 9, 11} \<and> (0x20 :: u16) < 2 ^ 6 \<and> sign_extend 0x20 6 = 0xFFE0
     \<and> sign_extend 0x20 6 AND mask 6 = 0x20
   \<and> (9 :: nat) \<in> {5, 6, 9, 11} \<and> (0x0FF :: u16) < 2 ^ 9 \<and> sign_extend 0x0FF 9 = 0x00FF
     \<and> sign_extend 0x0FF 9 AND mask 9 = 0x0FF
   \<and> (11 :: nat) \<in> {5, 6, 9, 11} \<and> (0x7FD :: u16) < 2 ^ 11 \<and> sign_extend 0x7FD 11 = 0xFFFD
     \<and> sign_extend 0x7FD 11 AND mask 11 = 0x7FD"
  using sign_extend_round_trip [of 5 "0x1F"] sign_extend_round_trip [of 6 "0x20"]
    sign_extend_round_trip [of 9 "0x0FF"] sign_extend_round_trip [of 11 "0x7FD"]
  by (simp add: sign_extend_def)

section \<open>Memory\<close>

text \<open>A word written to an address inside the array, other than the keyboard status
  address, is the word read back from it.\<close>

lemma mem_write_read:
  "unat a < MEMORY_MAX \<Longrightarrow> a \<noteq> MR_KBSR \<Longrightarrow>
     mem_write a v s = Inr (set_mem (unat a) v s)
       \<and> mem_read a (set_mem (unat a) v s) = Inr (v, set_mem (unat a) v s)"
  by (simp add: mem_write_def mem_read_plain)

text \<open>
  C1. Every address from 0x0000 to 0xFFFF is a storage word of its own, the highest
  address 0xFFFF included. The array has \<open>MEMORY_MAX = 65535\<close> elements, so the
  address 0xFFFF indexes one element past its end, in \<open>mem_write\<close> and in \<open>mem_read\<close>.
\<close>

theorem mem_top_out_of_bounds:
  "mem_write 0xFFFF v s = Inl OutOfBounds \<and> mem_read 0xFFFF s = Inl OutOfBounds"
  by (simp add: mem_write_def mem_read_def mem_defs mr_defs)




section \<open>Condition flags\<close>

lemma cmd_add_flags: "\<exists>t. cmd_add instr s = update_flags (unat (drop_bit 9 instr AND 0x7)) t"
  and cmd_and_flags: "\<exists>t. cmd_and instr s = update_flags (unat (drop_bit 9 instr AND 0x7)) t"
  and cmd_not_flags: "\<exists>t. cmd_not instr s = update_flags (unat (drop_bit 9 instr AND 0x7)) t"
  and cmd_lea_flags: "\<exists>t. cmd_lea instr s = update_flags (unat (drop_bit 9 instr AND 0x7)) t"
  by (auto simp: cmd_add_def cmd_and_def cmd_not_def cmd_lea_def Let_def)

lemma cmd_ld_flags:
  "cmd_ld instr s = Inr s' \<Longrightarrow> \<exists>t. s' = update_flags (unat (drop_bit 9 instr AND 0x7)) t"
  by (auto simp: cmd_ld_def Let_def split: sum.splits)

lemma cmd_ldi_flags:
  "cmd_ldi instr s = Inr s' \<Longrightarrow> \<exists>t. s' = update_flags (unat (drop_bit 9 instr AND 0x7)) t"
  by (auto simp: cmd_ldi_def Let_def split: sum.splits)

lemma cmd_ldr_flags:
  "cmd_ldr instr s = Inr s' \<Longrightarrow> \<exists>t. s' = update_flags (unat (drop_bit 9 instr AND 0x7)) t"
  by (auto simp: cmd_ldr_def Let_def split: sum.splits)

lemma cmd_trap_in_flags:
  "instr AND 0xFF \<in> {TRAP_GETC, TRAP_IN} \<Longrightarrow> cmd_trap instr s = Inr s' \<Longrightarrow>
     \<exists>t. s' = update_flags R_R0 t"
  by (auto simp: cmd_trap_def Let_def trap_defs split: sum.splits)

lemma flags_of_update_flags:
  assumes "r \<noteq> R_COND"
  shows "registers (update_flags r t) R_COND =
           (if registers (update_flags r t) r = 0 then FL_ZRO
            else if bit (registers (update_flags r t) r) 15 then FL_NEG else FL_POS)
         \<and> registers (update_flags r t) R_COND \<in> {FL_NEG, FL_ZRO, FL_POS}"
  using assms by (simp add: update_flags_registers)

text \<open>
  C3. A step that runs ADD, AND, NOT or LEA ends in a state; one that runs LD or LDR
  does when the address it forms is inside the array, and LDI when both its addresses
  are; one that runs TRAP GETC or TRAP IN does unless \<^verbatim>\<open>getchar()\<close> has to wait. In that
  state the condition register holds one of the three flags, decided by the
  destination register alone (register 0 for the traps): \<open>FL_ZRO\<close> when it is 0,
  \<open>FL_NEG\<close> when its top bit is set, \<open>FL_POS\<close> otherwise. The flag does not depend on
  the value the condition register had before. Otherwise the step is the access
  outside the array, or the wait, and there is no state after it.
\<close>

theorem flags_after_flag_defining:
  assumes fetch: "fetch s = Inr (instr, s1)"
    and dr: "dr = unat (drop_bit 9 instr AND 0x7)"
  shows
    "(drop_bit 12 instr \<in> {OP_ADD, OP_AND, OP_NOT, OP_LEA} \<longrightarrow>
        (\<exists>s'. step s = Inr s'
           \<and> registers s' R_COND =
               (if registers s' dr = 0 then FL_ZRO
                else if bit (registers s' dr) 15 then FL_NEG else FL_POS)
           \<and> registers s' R_COND \<in> {FL_NEG, FL_ZRO, FL_POS}))
     \<and> (drop_bit 12 instr = OP_LD \<longrightarrow>
        (if unat (registers s R_PC + 1 + sign_extend (instr AND 0x1ff) 9) < MEMORY_MAX
         then \<exists>s'. step s = Inr s'
           \<and> registers s' R_COND =
               (if registers s' dr = 0 then FL_ZRO
                else if bit (registers s' dr) 15 then FL_NEG else FL_POS)
           \<and> registers s' R_COND \<in> {FL_NEG, FL_ZRO, FL_POS}
         else step s = Inl OutOfBounds))
     \<and> (drop_bit 12 instr = OP_LDR \<longrightarrow>
        (if unat (registers s (unat (drop_bit 6 instr AND 0x7)) + sign_extend (instr AND 0x3f) 6)
              < MEMORY_MAX
         then \<exists>s'. step s = Inr s'
           \<and> registers s' R_COND =
               (if registers s' dr = 0 then FL_ZRO
                else if bit (registers s' dr) 15 then FL_NEG else FL_POS)
           \<and> registers s' R_COND \<in> {FL_NEG, FL_ZRO, FL_POS}
         else step s = Inl OutOfBounds))
     \<and> (drop_bit 12 instr = OP_LDI \<longrightarrow>
        (if unat (registers s R_PC + 1 + sign_extend (instr AND 0x1ff) 9) < MEMORY_MAX
         then \<exists>a s2. mem_read (registers s R_PC + 1 + sign_extend (instr AND 0x1ff) 9) s1
                        = Inr (a, s2)
           \<and> (if unat a < MEMORY_MAX
                then \<exists>s'. step s = Inr s'
                  \<and> registers s' R_COND =
                      (if registers s' dr = 0 then FL_ZRO
                       else if bit (registers s' dr) 15 then FL_NEG else FL_POS)
                  \<and> registers s' R_COND \<in> {FL_NEG, FL_ZRO, FL_POS}
                else step s = Inl OutOfBounds)
         else step s = Inl OutOfBounds))
     \<and> (drop_bit 12 instr = OP_TRAP \<and> instr AND 0xFF \<in> {TRAP_GETC, TRAP_IN} \<longrightarrow>
        (if stdin_buf s1 = [] \<and> fd0 s1 = [] \<and> \<not> fd0_eof s1
         then step s = Inl WouldBlock
         else \<exists>s'. step s = Inr s'
           \<and> registers s' R_COND =
               (if registers s' R_R0 = 0 then FL_ZRO
                else if bit (registers s' R_R0) 15 then FL_NEG else FL_POS)
           \<and> registers s' R_COND \<in> {FL_NEG, FL_ZRO, FL_POS}))"
proof -
  define P where "P = (\<lambda>r (s' :: machine). registers s' R_COND =
               (if registers s' r = 0 then FL_ZRO
                else if bit (registers s' r) 15 then FL_NEG else FL_POS)
           \<and> registers s' R_COND \<in> {FL_NEG, FL_ZRO, FL_POS})"
  note disp = step_dispatch [OF fetch]
  note regs = fetch_registers [OF fetch]
  have pc: "registers s1 R_PC = registers s R_PC + 1"
    by (simp add: regs)
  have base: "registers s1 (unat (drop_bit 6 instr AND 0x7))
      = registers s (unat (drop_bit 6 instr AND 0x7))"
    by (simp add: regs field_not_special)
  have dr_ok: "dr \<noteq> R_COND"
    unfolding dr by (rule field_not_special)
  have r0_ok: "R_R0 \<noteq> R_COND"
    by (simp add: reg_defs)
  have fl: "P dr (update_flags dr t)" for t
    unfolding P_def by (rule flags_of_update_flags [OF dr_ok])
  have fl0: "P R_R0 (update_flags R_R0 t)" for t
    unfolding P_def by (rule flags_of_update_flags [OF r0_ok])
  have alu: "\<exists>s'. step s = Inr s' \<and> P dr s'"
    if "drop_bit 12 instr \<in> {OP_ADD, OP_AND, OP_NOT, OP_LEA}"
  proof -
    have "\<exists>t. step s = Inr (update_flags dr t)"
      using that cmd_add_flags [of instr s1] cmd_and_flags [of instr s1]
        cmd_not_flags [of instr s1] cmd_lea_flags [of instr s1]
      unfolding dr disp
      by (auto simp: dispatch_ADD dispatch_AND dispatch_NOT dispatch_LEA)
    then show ?thesis using fl by auto
  qed
  have load: "if unat a < MEMORY_MAX then \<exists>s'. r = Inr s' \<and> P dr s' else r = Inl OutOfBounds"
    if "r = (case mem_read a t of Inl e \<Rightarrow> Inl e
             | Inr (v, t') \<Rightarrow> Inr (update_flags dr (set_reg dr v t')))" for r a t
  proof (cases "unat a < MEMORY_MAX")
    case True
    then obtain v t' where "mem_read a t = Inr (v, t')"
      using mem_read_in_bounds by blast
    with that True show ?thesis using fl by simp
  next
    case False
    with that show ?thesis by (simp add: mem_read_out_of_bounds)
  qed
  have ld: "if unat (registers s R_PC + 1 + sign_extend (instr AND 0x1ff) 9) < MEMORY_MAX
         then \<exists>s'. step s = Inr s' \<and> P dr s' else step s = Inl OutOfBounds"
    if "drop_bit 12 instr = OP_LD"
    using that unfolding disp dr
    by (intro load [unfolded dr, of _ _ s1]) (simp add: dispatch_LD cmd_ld_def Let_def pc)
  have ldr: "if unat (registers s (unat (drop_bit 6 instr AND 0x7)) + sign_extend (instr AND 0x3f) 6)
              < MEMORY_MAX
         then \<exists>s'. step s = Inr s' \<and> P dr s' else step s = Inl OutOfBounds"
    if "drop_bit 12 instr = OP_LDR"
    using that unfolding disp dr
    by (intro load [unfolded dr, of _ _ s1]) (simp add: dispatch_LDR cmd_ldr_def Let_def base)
  have ldi: "if unat (registers s R_PC + 1 + sign_extend (instr AND 0x1ff) 9) < MEMORY_MAX
         then \<exists>a s2. mem_read (registers s R_PC + 1 + sign_extend (instr AND 0x1ff) 9) s1
                        = Inr (a, s2)
           \<and> (if unat a < MEMORY_MAX
                then \<exists>s'. step s = Inr s' \<and> P dr s' else step s = Inl OutOfBounds)
         else step s = Inl OutOfBounds"
    if op: "drop_bit 12 instr = OP_LDI"
  proof (cases "unat (registers s R_PC + 1 + sign_extend (instr AND 0x1ff) 9) < MEMORY_MAX")
    case False
    then show ?thesis
      using op mem_read_out_of_bounds [OF False, of s1]
      unfolding disp by (simp add: dispatch_LDI cmd_ldi_def Let_def pc)
  next
    case True
    obtain a s2 where r1: "mem_read (registers s R_PC + 1 + sign_extend (instr AND 0x1ff) 9) s1
        = Inr (a, s2)"
      using mem_read_in_bounds [OF True] by blast
    have "if unat a < MEMORY_MAX
          then \<exists>s'. step s = Inr s' \<and> P dr s' else step s = Inl OutOfBounds"
      using op r1 unfolding disp dr
      by (intro load [unfolded dr, of _ _ s2]) (simp add: dispatch_LDI cmd_ldi_def Let_def pc)
    with True r1 show ?thesis by simp
  qed
  have trap: "if stdin_buf s1 = [] \<and> fd0 s1 = [] \<and> \<not> fd0_eof s1
         then step s = Inl WouldBlock
         else \<exists>s'. step s = Inr s' \<and> P R_R0 s'"
    if op: "drop_bit 12 instr = OP_TRAP" "instr AND 0xFF \<in> {TRAP_GETC, TRAP_IN}"
  proof (cases "stdin_buf s1 = [] \<and> fd0 s1 = [] \<and> \<not> fd0_eof s1")
    case True
    then show ?thesis
      using op unfolding disp
      by (auto simp: dispatch_TRAP cmd_trap_def Let_def trap_defs getchar_waits)
  next
    case False
    have g1: "\<exists>c t. getchar (set_reg R_R7 (registers s1 R_PC) s1) = Inr (c, t)"
      using False by (intro getchar_returns) simp
    have g2: "\<exists>c t. getchar (print_string ''Enter a character: ''
                (set_reg R_R7 (registers s1 R_PC) s1)) = Inr (c, t)"
      using False by (intro getchar_returns) simp
    have "\<exists>t. step s = Inr (update_flags R_R0 t)"
      using op g1 g2 unfolding disp
      by (auto simp: dispatch_TRAP cmd_trap_def Let_def trap_defs)
    then show ?thesis
      using False fl0 by auto
  qed
  show ?thesis
    using alu ld ldr ldi trap unfolding P_def by blast
qed

theorem flags_after_flag_defining_witness:
  "fetch (one_instr 0x1021) = Inr (0x1021, set_reg R_PC 0x3001 (one_instr 0x1021))
   \<and> drop_bit 12 (0x1021 :: u16) = OP_ADD
   \<and> (case step (one_instr 0x1021) of Inl e \<Rightarrow> False | Inr s' \<Rightarrow> registers s' R_R0 = 1 \<and> registers s' R_COND = FL_POS)
   \<and> fetch (set_reg R_COND FL_NEG (one_instr 0x5020)) = Inr (0x5020, set_reg R_PC 0x3001 (set_reg R_COND FL_NEG (one_instr 0x5020)))
   \<and> drop_bit 12 (0x5020 :: u16) = OP_AND
   \<and> (case step (set_reg R_COND FL_NEG (one_instr 0x5020)) of Inl e \<Rightarrow> False | Inr s' \<Rightarrow> registers s' R_R0 = 0 \<and> registers s' R_COND = FL_ZRO)
   \<and> fetch (one_instr 0x92BF) = Inr (0x92BF, set_reg R_PC 0x3001 (one_instr 0x92BF))
   \<and> drop_bit 12 (0x92BF :: u16) = OP_NOT
   \<and> (case step (one_instr 0x92BF) of Inl e \<Rightarrow> False | Inr s' \<Rightarrow> registers s' R_R1 = 0xFFFF \<and> registers s' R_COND = FL_NEG)
   \<and> fetch (one_instr 0xE002) = Inr (0xE002, set_reg R_PC 0x3001 (one_instr 0xE002))
   \<and> drop_bit 12 (0xE002 :: u16) = OP_LEA
   \<and> (case step (one_instr 0xE002) of Inl e \<Rightarrow> False | Inr s' \<Rightarrow> registers s' R_R0 = 0x3003 \<and> registers s' R_COND = FL_POS)
   \<and> fetch (set_mem 0x2FFF 0x8001 (one_instr 0x23FE)) = Inr (0x23FE, set_reg R_PC 0x3001 (set_mem 0x2FFF 0x8001 (one_instr 0x23FE)))
   \<and> drop_bit 12 (0x23FE :: u16) = OP_LD
   \<and> (case step (set_mem 0x2FFF 0x8001 (one_instr 0x23FE)) of Inl e \<Rightarrow> False | Inr s' \<Rightarrow> registers s' R_R1 = 0x8001 \<and> registers s' R_COND = FL_NEG)
   \<and> fetch (set_reg R_R2 0x4000 (set_mem 0x4001 5 (one_instr 0x6281))) = Inr (0x6281, set_reg R_PC 0x3001 (set_reg R_R2 0x4000 (set_mem 0x4001 5 (one_instr 0x6281))))
   \<and> drop_bit 12 (0x6281 :: u16) = OP_LDR
   \<and> (case step (set_reg R_R2 0x4000 (set_mem 0x4001 5 (one_instr 0x6281))) of Inl e \<Rightarrow> False | Inr s' \<Rightarrow> registers s' R_R1 = 5 \<and> registers s' R_COND = FL_POS)
   \<and> fetch (set_mem 0x4000 0 (set_mem 0x3002 0x4000 (one_instr 0xA401))) = Inr (0xA401, set_reg R_PC 0x3001 (set_mem 0x4000 0 (set_mem 0x3002 0x4000 (one_instr 0xA401))))
   \<and> drop_bit 12 (0xA401 :: u16) = OP_LDI
   \<and> (case step (set_mem 0x4000 0 (set_mem 0x3002 0x4000 (one_instr 0xA401))) of Inl e \<Rightarrow> False | Inr s' \<Rightarrow> registers s' R_R2 = 0 \<and> registers s' R_COND = FL_ZRO)
   \<and> fetch ((one_instr 0xF020)\<lparr>fd0 := [0x61]\<rparr>) = Inr (0xF020, set_reg R_PC 0x3001 ((one_instr 0xF020)\<lparr>fd0 := [0x61]\<rparr>))
   \<and> drop_bit 12 (0xF020 :: u16) = OP_TRAP
   \<and> (0xF020 :: u16) AND 0xFF = TRAP_GETC
   \<and> (case step ((one_instr 0xF020)\<lparr>fd0 := [0x61]\<rparr>) of Inl e \<Rightarrow> False | Inr s' \<Rightarrow> registers s' R_R0 = 0x61 \<and> registers s' R_COND = FL_POS)
   \<and> fetch ((one_instr 0xF023)\<lparr>fd0 := [0xE9]\<rparr>) = Inr (0xF023, set_reg R_PC 0x3001 ((one_instr 0xF023)\<lparr>fd0 := [0xE9]\<rparr>))
   \<and> drop_bit 12 (0xF023 :: u16) = OP_TRAP
   \<and> (0xF023 :: u16) AND 0xFF = TRAP_IN
   \<and> (case step ((one_instr 0xF023)\<lparr>fd0 := [0xE9]\<rparr>) of Inl e \<Rightarrow> False | Inr s' \<Rightarrow> registers s' R_R0 = 0xFFE9 \<and> registers s' R_COND = FL_NEG)"
proof -
  have f1: "fetch (one_instr 0x1021) = Inr (0x1021, set_reg R_PC 0x3001 (one_instr 0x1021))"
    by (simp add: eval_defs)
  have d1: "(0 :: nat) = unat (drop_bit 9 (0x1021 :: u16) AND 0x7)"
    by simp
  have o1: "drop_bit 12 (0x1021 :: u16) = OP_ADD"
    by (simp add: op_defs)
  have v1: "case step (one_instr 0x1021) of Inl e \<Rightarrow> False | Inr s' \<Rightarrow> registers s' R_R0 = 1 \<and> registers s' R_COND = FL_POS"
    by (simp add: eval_defs)
  have e1: "\<exists>s'. step (one_instr 0x1021) = Inr s'"
    using flags_after_flag_defining [OF f1 d1, THEN conjunct1] o1 by auto
  have f2: "fetch (set_reg R_COND FL_NEG (one_instr 0x5020)) = Inr (0x5020, set_reg R_PC 0x3001 (set_reg R_COND FL_NEG (one_instr 0x5020)))"
    by (simp add: eval_defs)
  have d2: "(0 :: nat) = unat (drop_bit 9 (0x5020 :: u16) AND 0x7)"
    by simp
  have o2: "drop_bit 12 (0x5020 :: u16) = OP_AND"
    by (simp add: op_defs)
  have v2: "case step (set_reg R_COND FL_NEG (one_instr 0x5020)) of Inl e \<Rightarrow> False | Inr s' \<Rightarrow> registers s' R_R0 = 0 \<and> registers s' R_COND = FL_ZRO"
    by (simp add: eval_defs)
  have e2: "\<exists>s'. step (set_reg R_COND FL_NEG (one_instr 0x5020)) = Inr s'"
    using flags_after_flag_defining [OF f2 d2, THEN conjunct1] o2 by auto
  have f3: "fetch (one_instr 0x92BF) = Inr (0x92BF, set_reg R_PC 0x3001 (one_instr 0x92BF))"
    by (simp add: eval_defs)
  have d3: "(1 :: nat) = unat (drop_bit 9 (0x92BF :: u16) AND 0x7)"
    by simp
  have o3: "drop_bit 12 (0x92BF :: u16) = OP_NOT"
    by (simp add: op_defs)
  have v3: "case step (one_instr 0x92BF) of Inl e \<Rightarrow> False | Inr s' \<Rightarrow> registers s' R_R1 = 0xFFFF \<and> registers s' R_COND = FL_NEG"
    by (simp add: eval_defs)
  have e3: "\<exists>s'. step (one_instr 0x92BF) = Inr s'"
    using flags_after_flag_defining [OF f3 d3, THEN conjunct1] o3 by auto
  have f4: "fetch (one_instr 0xE002) = Inr (0xE002, set_reg R_PC 0x3001 (one_instr 0xE002))"
    by (simp add: eval_defs)
  have d4: "(0 :: nat) = unat (drop_bit 9 (0xE002 :: u16) AND 0x7)"
    by simp
  have o4: "drop_bit 12 (0xE002 :: u16) = OP_LEA"
    by (simp add: op_defs)
  have v4: "case step (one_instr 0xE002) of Inl e \<Rightarrow> False | Inr s' \<Rightarrow> registers s' R_R0 = 0x3003 \<and> registers s' R_COND = FL_POS"
    by (simp add: eval_defs)
  have e4: "\<exists>s'. step (one_instr 0xE002) = Inr s'"
    using flags_after_flag_defining [OF f4 d4, THEN conjunct1] o4 by auto
  have f5: "fetch (set_mem 0x2FFF 0x8001 (one_instr 0x23FE)) = Inr (0x23FE, set_reg R_PC 0x3001 (set_mem 0x2FFF 0x8001 (one_instr 0x23FE)))"
    by (simp add: eval_defs)
  have d5: "(1 :: nat) = unat (drop_bit 9 (0x23FE :: u16) AND 0x7)"
    by simp
  have o5: "drop_bit 12 (0x23FE :: u16) = OP_LD"
    by (simp add: op_defs)
  have v5: "case step (set_mem 0x2FFF 0x8001 (one_instr 0x23FE)) of Inl e \<Rightarrow> False | Inr s' \<Rightarrow> registers s' R_R1 = 0x8001 \<and> registers s' R_COND = FL_NEG"
    by (simp add: eval_defs)
  have b5: "unat (registers (set_mem 0x2FFF 0x8001 (one_instr 0x23FE)) R_PC + 1 + sign_extend (0x23FE AND 0x1ff) 9) < MEMORY_MAX"
    by (simp add: eval_defs)
  have e5: "step (set_mem 0x2FFF 0x8001 (one_instr 0x23FE)) \<noteq> Inl WouldBlock"
    using flags_after_flag_defining [OF f5 d5, THEN conjunct2, THEN conjunct1] o5 b5 by auto
  have f6: "fetch (set_reg R_R2 0x4000 (set_mem 0x4001 5 (one_instr 0x6281))) = Inr (0x6281, set_reg R_PC 0x3001 (set_reg R_R2 0x4000 (set_mem 0x4001 5 (one_instr 0x6281))))"
    by (simp add: eval_defs)
  have d6: "(1 :: nat) = unat (drop_bit 9 (0x6281 :: u16) AND 0x7)"
    by simp
  have o6: "drop_bit 12 (0x6281 :: u16) = OP_LDR"
    by (simp add: op_defs)
  have v6: "case step (set_reg R_R2 0x4000 (set_mem 0x4001 5 (one_instr 0x6281))) of Inl e \<Rightarrow> False | Inr s' \<Rightarrow> registers s' R_R1 = 5 \<and> registers s' R_COND = FL_POS"
    by (simp add: eval_defs)
  have b6: "unat (registers (set_reg R_R2 0x4000 (set_mem 0x4001 5 (one_instr 0x6281))) (unat (drop_bit 6 (0x6281 :: u16) AND 0x7))
                + sign_extend (0x6281 AND 0x3f) 6) < MEMORY_MAX"
    by (simp add: eval_defs)
  have e6: "\<exists>s'. step (set_reg R_R2 0x4000 (set_mem 0x4001 5 (one_instr 0x6281))) = Inr s'"
    using flags_after_flag_defining [OF f6 d6, THEN conjunct2, THEN conjunct2, THEN conjunct1] o6 b6 by auto
  have f7: "fetch (set_mem 0x4000 0 (set_mem 0x3002 0x4000 (one_instr 0xA401))) = Inr (0xA401, set_reg R_PC 0x3001 (set_mem 0x4000 0 (set_mem 0x3002 0x4000 (one_instr 0xA401))))"
    by (simp add: eval_defs)
  have d7: "(2 :: nat) = unat (drop_bit 9 (0xA401 :: u16) AND 0x7)"
    by simp
  have o7: "drop_bit 12 (0xA401 :: u16) = OP_LDI"
    by (simp add: op_defs)
  have v7: "case step (set_mem 0x4000 0 (set_mem 0x3002 0x4000 (one_instr 0xA401))) of Inl e \<Rightarrow> False | Inr s' \<Rightarrow> registers s' R_R2 = 0 \<and> registers s' R_COND = FL_ZRO"
    by (simp add: eval_defs)
  have b7: "unat (registers (set_mem 0x4000 0 (set_mem 0x3002 0x4000 (one_instr 0xA401))) R_PC + 1 + sign_extend (0xA401 AND 0x1ff) 9) < MEMORY_MAX"
    by (simp add: eval_defs)
  have e7: "step (set_mem 0x4000 0 (set_mem 0x3002 0x4000 (one_instr 0xA401))) \<noteq> Inl WouldBlock"
    using flags_after_flag_defining [OF f7 d7, THEN conjunct2, THEN conjunct2, THEN conjunct2, THEN conjunct1] o7 b7
    by (auto split: if_splits)
  have f8: "fetch ((one_instr 0xF020)\<lparr>fd0 := [0x61]\<rparr>) = Inr (0xF020, set_reg R_PC 0x3001 ((one_instr 0xF020)\<lparr>fd0 := [0x61]\<rparr>))"
    by (simp add: eval_defs)
  have d8: "(0 :: nat) = unat (drop_bit 9 (0xF020 :: u16) AND 0x7)"
    by simp
  have o8: "drop_bit 12 (0xF020 :: u16) = OP_TRAP"
    by (simp add: op_defs)
  have v8: "case step ((one_instr 0xF020)\<lparr>fd0 := [0x61]\<rparr>) of Inl e \<Rightarrow> False | Inr s' \<Rightarrow> registers s' R_R0 = 0x61 \<and> registers s' R_COND = FL_POS"
    by (simp add: eval_defs)
  have t8: "(0xF020 :: u16) AND 0xFF = TRAP_GETC"
    by (simp add: trap_defs)
  have b8: "\<not> (stdin_buf (set_reg R_PC 0x3001 ((one_instr 0xF020)\<lparr>fd0 := [0x61]\<rparr>)) = [] \<and> fd0 (set_reg R_PC 0x3001 ((one_instr 0xF020)\<lparr>fd0 := [0x61]\<rparr>)) = []
            \<and> \<not> fd0_eof (set_reg R_PC 0x3001 ((one_instr 0xF020)\<lparr>fd0 := [0x61]\<rparr>)))"
    by (simp add: eval_defs)
  have e8: "\<exists>s'. step ((one_instr 0xF020)\<lparr>fd0 := [0x61]\<rparr>) = Inr s'"
    using flags_after_flag_defining [OF f8 d8, THEN conjunct2, THEN conjunct2, THEN conjunct2, THEN conjunct2] o8 t8 b8 by auto
  have f9: "fetch ((one_instr 0xF023)\<lparr>fd0 := [0xE9]\<rparr>) = Inr (0xF023, set_reg R_PC 0x3001 ((one_instr 0xF023)\<lparr>fd0 := [0xE9]\<rparr>))"
    by (simp add: eval_defs)
  have d9: "(0 :: nat) = unat (drop_bit 9 (0xF023 :: u16) AND 0x7)"
    by simp
  have o9: "drop_bit 12 (0xF023 :: u16) = OP_TRAP"
    by (simp add: op_defs)
  have v9: "case step ((one_instr 0xF023)\<lparr>fd0 := [0xE9]\<rparr>) of Inl e \<Rightarrow> False | Inr s' \<Rightarrow> registers s' R_R0 = 0xFFE9 \<and> registers s' R_COND = FL_NEG"
    by (simp add: eval_defs)
  have t9: "(0xF023 :: u16) AND 0xFF = TRAP_IN"
    by (simp add: trap_defs)
  have b9: "\<not> (stdin_buf (set_reg R_PC 0x3001 ((one_instr 0xF023)\<lparr>fd0 := [0xE9]\<rparr>)) = [] \<and> fd0 (set_reg R_PC 0x3001 ((one_instr 0xF023)\<lparr>fd0 := [0xE9]\<rparr>)) = []
            \<and> \<not> fd0_eof (set_reg R_PC 0x3001 ((one_instr 0xF023)\<lparr>fd0 := [0xE9]\<rparr>)))"
    by (simp add: eval_defs)
  have e9: "\<exists>s'. step ((one_instr 0xF023)\<lparr>fd0 := [0xE9]\<rparr>) = Inr s'"
    using flags_after_flag_defining [OF f9 d9, THEN conjunct2, THEN conjunct2, THEN conjunct2, THEN conjunct2] o9 t9 b9 by auto
  show ?thesis
    using e1 e2 e3 e4 e5 e6 e7 e8 e9
    by (simp only: f1 o1 v1 f2 o2 v2 f3 o3 v3 f4 o4 v4 f5 o5 v5 f6 o6 v6 f7 o7 v7 f8 o8 v8 t8 f9 o9 v9 t9 simp_thms)
qed

section \<open>Traps\<close>

lemma fetch_running: "fetch s = Inr (instr, s1) \<Longrightarrow> running s1 = running s"
  using mem_read_registers [of "registers s R_PC" "set_reg R_PC (registers s R_PC + 1) s" instr s1]
  by (simp add: fetch_def)

lemma cmd_trap_unknown:
  assumes "instr AND 0xFF \<notin> {TRAP_GETC, TRAP_OUT, TRAP_PUTS, TRAP_IN, TRAP_PUTSP, TRAP_HALT}"
  shows "cmd_trap instr s = Inr (set_reg R_R7 (registers s R_PC) s)"
  using assms by (simp add: cmd_trap_def Let_def)

text \<open>
  C5, as the code has it. A TRAP whose low eight bits are none of the six vectors leaves
  the state as the fetch left it but for register 7, which holds the incremented
  program counter: \<open>cmd_trap\<close> stores the link before it looks at the vector. The
  machine keeps running.
\<close>

theorem unknown_trap_sets_r7:
  assumes "fetch s = Inr (instr, s1)"
    and "drop_bit 12 instr = OP_TRAP"
    and "instr AND 0xFF \<notin> {TRAP_GETC, TRAP_OUT, TRAP_PUTS, TRAP_IN, TRAP_PUTSP, TRAP_HALT}"
  shows "step s = Inr (set_reg R_R7 (registers s R_PC + 1) s1)
         \<and> running (set_reg R_R7 (registers s R_PC + 1) s1) = running s"
  using assms step_dispatch [OF assms(1)] fetch_registers [OF assms(1)] fetch_running [OF assms(1)]
  by (simp add: dispatch_TRAP cmd_trap_unknown)

theorem unknown_trap_sets_r7_witness:
  "fetch (one_instr 0xF0FF)
     = Inr (0xF0FF, set_reg R_PC 0x3001 (one_instr 0xF0FF))
   \<and> drop_bit 12 (0xF0FF :: u16) = OP_TRAP
   \<and> (0xF0FF :: u16) AND 0xFF \<notin> {TRAP_GETC, TRAP_OUT, TRAP_PUTS, TRAP_IN, TRAP_PUTSP, TRAP_HALT}
   \<and> step (one_instr 0xF0FF)
     = Inr (set_reg R_R7 0x3001 (set_reg R_PC 0x3001 (one_instr 0xF0FF)))"
  using unknown_trap_sets_r7 [of "one_instr 0xF0FF" "0xF0FF"
      "set_reg R_PC 0x3001 (one_instr 0xF0FF)"]
  by (simp add: eval_defs)

text \<open>
  C5, as stated, says that register 7 too is as it was after the fetch. In the machine
  that starts on the word 0xF0FF (TRAP with the vector 0xFF) register 7 is 0 after the
  fetch and 0x3001 after the step.
\<close>

theorem unknown_trap_changes_r7:
  "fetch (one_instr 0xF0FF)
     = Inr (0xF0FF, set_reg R_PC 0x3001 (one_instr 0xF0FF))
   \<and> drop_bit 12 (0xF0FF :: u16) = OP_TRAP
   \<and> (0xF0FF :: u16) AND 0xFF \<notin> {TRAP_GETC, TRAP_OUT, TRAP_PUTS, TRAP_IN, TRAP_PUTSP, TRAP_HALT}
   \<and> registers (set_reg R_PC 0x3001 (one_instr 0xF0FF)) R_R7 = 0
   \<and> (case step (one_instr 0xF0FF) of
         Inl e \<Rightarrow> False
       | Inr s' \<Rightarrow> registers s' R_R7 = 0x3001
           \<and> registers s' R_R7
               \<noteq> registers (set_reg R_PC 0x3001 (one_instr 0xF0FF)) R_R7)"
  by (simp add: eval_defs)

section \<open>Illegal opcodes\<close>

text \<open>The ordinary end: TRAP HALT finishes its step with \<open>running\<close> false, and the loop
  is left with a state.\<close>

lemma trap_halt_stops:
  assumes "fetch s = Inr (instr, s1)"
    and "drop_bit 12 instr = OP_TRAP"
    and "instr AND 0xFF = TRAP_HALT"
    and "running s"
  shows "\<exists>s'. step s = Inr s' \<and> \<not> running s' \<and> run (Suc n) s = Some (Inr s')"
proof -
  have "step s = Inr ((print_string (''HALT'' @ [CHR 0x0A])
                  (set_reg R_R7 (registers s1 R_PC) s1))\<lparr>running := False\<rparr>)"
    using assms(2,3) step_dispatch [OF assms(1)]
    by (simp add: dispatch_TRAP cmd_trap_def trap_defs Let_def)
  then show ?thesis
    using assms(4) by (simp add: run_halted)
qed

text \<open>
  C6. When the fetched word has the opcode \<open>OP_RTI\<close> (8) or \<open>OP_RES\<close> (13), in whatever
  state of a run, the step ends in \<^verbatim>\<open>abort()\<close>, not in a state as after TRAP HALT, and
  the loop ends there with that result whatever fuel is left.
\<close>

theorem illegal_opcode_aborts:
  assumes "fetch s = Inr (instr, s1)"
    and "drop_bit 12 instr \<in> {OP_RTI, OP_RES}"
    and "running s"
  shows "step s = Inl Aborted \<and> run (Suc n) s = Some (Inl Aborted)"
proof -
  have "step s = Inl Aborted"
    using assms(2) step_dispatch [OF assms(1)] by (auto simp: dispatch_RTI dispatch_RES)
  then show ?thesis
    using assms(3) by simp
qed

theorem illegal_opcode_aborts_witness:
  "fetch (one_instr 0x8000) = Inr (0x8000, set_reg R_PC 0x3001 (one_instr 0x8000))
   \<and> drop_bit 12 (0x8000 :: u16) \<in> {OP_RTI, OP_RES}
   \<and> running (one_instr 0x8000)
   \<and> step (one_instr 0x8000) = Inl Aborted
   \<and> run (Suc 5) (one_instr 0x8000) = Some (Inl Aborted)
   \<and> fetch (one_instr 0xD123) = Inr (0xD123, set_reg R_PC 0x3001 (one_instr 0xD123))
   \<and> drop_bit 12 (0xD123 :: u16) \<in> {OP_RTI, OP_RES}
   \<and> running (one_instr 0xD123)
   \<and> step (one_instr 0xD123) = Inl Aborted
   \<and> run (Suc 0) (one_instr 0xD123) = Some (Inl Aborted)"
  using illegal_opcode_aborts [of "one_instr 0x8000" "0x8000"
      "set_reg R_PC 0x3001 (one_instr 0x8000)" 5]
    illegal_opcode_aborts [of "one_instr 0xD123" "0xD123"
      "set_reg R_PC 0x3001 (one_instr 0xD123)" 0]
  by (simp add: eval_defs)

section \<open>The program counter\<close>

text \<open>\<open>mem_read\<close> neither reads nor writes a register, so the fetch is as well "read the
  word at the program counter, then increment the program counter".\<close>

lemma mem_read_set_reg:
  "mem_read a (set_reg r v s)
     = (case mem_read a s of Inl e \<Rightarrow> Inl e | Inr (w, s') \<Rightarrow> Inr (w, set_reg r v s'))"
  by (simp add: mem_read_def check_key_def getchar_def set_reg_def set_mem_def
      split: list.splits)

lemma fetch_read_then_increment:
  "fetch s
     = (case mem_read (registers s R_PC) s of
          Inl e \<Rightarrow> Inl e
        | Inr (instr, s') \<Rightarrow> Inr (instr, set_reg R_PC (registers s R_PC + 1) s'))"
  by (simp add: fetch_def mem_read_set_reg)

text \<open>
  C2. The fetch leaves the program counter one past the address of the fetched word,
  and the handler runs in that state: each address that BR, LD, LDI, LEA, ST, STI and
  JSR form from the program counter is the address of the following instruction plus
  the sign-extended offset.
\<close>

theorem pc_relative_to_next_instruction:
  assumes "fetch s = Inr (instr, s1)"
  shows "registers s1 R_PC = registers s R_PC + 1
    \<and> (drop_bit 12 instr = OP_BR \<longrightarrow>
         step s = Inr (if (drop_bit 9 instr AND 0x7) AND registers s R_COND \<noteq> 0
                       then set_reg R_PC (registers s R_PC + 1 + sign_extend (instr AND 0x1ff) 9) s1
                       else s1))
    \<and> (drop_bit 12 instr = OP_LD \<longrightarrow>
         step s = (case mem_read (registers s R_PC + 1 + sign_extend (instr AND 0x1ff) 9) s1 of
                     Inl e \<Rightarrow> Inl e
                   | Inr (v, s2) \<Rightarrow>
                       Inr (update_flags (unat (drop_bit 9 instr AND 0x7))
                              (set_reg (unat (drop_bit 9 instr AND 0x7)) v s2))))
    \<and> (drop_bit 12 instr = OP_LDI \<longrightarrow>
         step s = (case mem_read (registers s R_PC + 1 + sign_extend (instr AND 0x1ff) 9) s1 of
                     Inl e \<Rightarrow> Inl e
                   | Inr (a, s2) \<Rightarrow>
                       (case mem_read a s2 of
                          Inl e \<Rightarrow> Inl e
                        | Inr (v, s3) \<Rightarrow>
                            Inr (update_flags (unat (drop_bit 9 instr AND 0x7))
                                   (set_reg (unat (drop_bit 9 instr AND 0x7)) v s3)))))
    \<and> (drop_bit 12 instr = OP_LEA \<longrightarrow>
         step s = Inr (update_flags (unat (drop_bit 9 instr AND 0x7))
                         (set_reg (unat (drop_bit 9 instr AND 0x7))
                            (registers s R_PC + 1 + sign_extend (instr AND 0x1ff) 9) s1)))
    \<and> (drop_bit 12 instr = OP_ST \<longrightarrow>
         step s = mem_write (registers s R_PC + 1 + sign_extend (instr AND 0x1ff) 9)
                    (registers s (unat (drop_bit 9 instr AND 0x7))) s1)
    \<and> (drop_bit 12 instr = OP_STI \<longrightarrow>
         step s = (case mem_read (registers s R_PC + 1 + sign_extend (instr AND 0x1ff) 9) s1 of
                     Inl e \<Rightarrow> Inl e
                   | Inr (a, s2) \<Rightarrow>
                       mem_write a (registers s (unat (drop_bit 9 instr AND 0x7))) s2))
    \<and> (drop_bit 12 instr = OP_JSR \<and> drop_bit 11 instr AND 1 \<noteq> 0 \<longrightarrow>
         step s = Inr (set_reg R_PC (registers s R_PC + 1 + sign_extend (instr AND 0x7ff) 11)
                         (set_reg R_R7 (registers s R_PC + 1) s1)))"
proof -
  note regs = fetch_registers [OF assms]
  note disp = step_dispatch [OF assms]
  have pc: "registers s1 R_PC = registers s R_PC + 1"
    by (simp add: regs)
  have cond: "registers s1 R_COND = registers s R_COND"
    by (simp add: regs reg_defs)
  have fld: "registers s1 (unat (drop_bit 9 instr AND 0x7)) = registers s (unat (drop_bit 9 instr AND 0x7))"
    by (simp add: regs field_not_special)
  have br: "drop_bit 12 instr = OP_BR \<Longrightarrow>
         step s = Inr (if (drop_bit 9 instr AND 0x7) AND registers s R_COND \<noteq> 0
                       then set_reg R_PC (registers s R_PC + 1 + sign_extend (instr AND 0x1ff) 9) s1
                       else s1)"
    by (simp add: disp dispatch_BR cmd_br_def Let_def pc cond)
  have ld: "drop_bit 12 instr = OP_LD \<Longrightarrow>
         step s = (case mem_read (registers s R_PC + 1 + sign_extend (instr AND 0x1ff) 9) s1 of
                     Inl e \<Rightarrow> Inl e
                   | Inr (v, s2) \<Rightarrow>
                       Inr (update_flags (unat (drop_bit 9 instr AND 0x7))
                              (set_reg (unat (drop_bit 9 instr AND 0x7)) v s2)))"
    by (simp add: disp dispatch_LD cmd_ld_def Let_def pc)
  have ldi: "drop_bit 12 instr = OP_LDI \<Longrightarrow>
         step s = (case mem_read (registers s R_PC + 1 + sign_extend (instr AND 0x1ff) 9) s1 of
                     Inl e \<Rightarrow> Inl e
                   | Inr (a, s2) \<Rightarrow>
                       (case mem_read a s2 of
                          Inl e \<Rightarrow> Inl e
                        | Inr (v, s3) \<Rightarrow>
                            Inr (update_flags (unat (drop_bit 9 instr AND 0x7))
                                   (set_reg (unat (drop_bit 9 instr AND 0x7)) v s3))))"
    by (simp add: disp dispatch_LDI cmd_ldi_def Let_def pc)
  have lea: "drop_bit 12 instr = OP_LEA \<Longrightarrow>
         step s = Inr (update_flags (unat (drop_bit 9 instr AND 0x7))
                         (set_reg (unat (drop_bit 9 instr AND 0x7))
                            (registers s R_PC + 1 + sign_extend (instr AND 0x1ff) 9) s1))"
    by (simp add: disp dispatch_LEA cmd_lea_def Let_def pc)
  have st: "drop_bit 12 instr = OP_ST \<Longrightarrow>
         step s = mem_write (registers s R_PC + 1 + sign_extend (instr AND 0x1ff) 9)
                    (registers s (unat (drop_bit 9 instr AND 0x7))) s1"
    by (simp add: disp dispatch_ST cmd_st_def Let_def pc fld)
  have sti: "drop_bit 12 instr = OP_STI \<Longrightarrow>
         step s = (case mem_read (registers s R_PC + 1 + sign_extend (instr AND 0x1ff) 9) s1 of
                     Inl e \<Rightarrow> Inl e
                   | Inr (a, s2) \<Rightarrow>
                       mem_write a (registers s (unat (drop_bit 9 instr AND 0x7))) s2)"
    using mem_read_registers [of "registers s R_PC + 1 + sign_extend (instr AND 0x1ff) 9" s1]
    by (auto simp: disp dispatch_STI cmd_sti_def Let_def pc fld split: sum.splits)
  have jsr: "drop_bit 12 instr = OP_JSR \<Longrightarrow> drop_bit 11 instr AND 1 \<noteq> 0 \<Longrightarrow>
         step s = Inr (set_reg R_PC (registers s R_PC + 1 + sign_extend (instr AND 0x7ff) 11)
                         (set_reg R_R7 (registers s R_PC + 1) s1))"
    using pc by (simp add: disp dispatch_JSR cmd_jsr_def Let_def reg_defs)
  show ?thesis
    using pc br ld ldi lea st sti jsr by blast
qed

theorem pc_relative_to_next_instruction_witness:
  "fetch (one_instr 0x0402) = Inr (0x0402, set_reg R_PC 0x3001 (one_instr 0x0402))
   \<and> drop_bit 12 (0x0402 :: u16) = OP_BR
   \<and> (case step (one_instr 0x0402) of Inl e \<Rightarrow> False | Inr s' \<Rightarrow> registers s' R_PC = 0x3003)
   \<and> fetch (set_mem 0x2FFF 0x8001 (one_instr 0x23FE)) = Inr (0x23FE, set_reg R_PC 0x3001 (set_mem 0x2FFF 0x8001 (one_instr 0x23FE)))
   \<and> drop_bit 12 (0x23FE :: u16) = OP_LD
   \<and> (case step (set_mem 0x2FFF 0x8001 (one_instr 0x23FE)) of Inl e \<Rightarrow> False | Inr s' \<Rightarrow> registers s' R_R1 = 0x8001)
   \<and> fetch (set_mem 0x4000 7 (set_mem 0x3002 0x4000 (one_instr 0xA401))) = Inr (0xA401, set_reg R_PC 0x3001 (set_mem 0x4000 7 (set_mem 0x3002 0x4000 (one_instr 0xA401))))
   \<and> drop_bit 12 (0xA401 :: u16) = OP_LDI
   \<and> (case step (set_mem 0x4000 7 (set_mem 0x3002 0x4000 (one_instr 0xA401))) of Inl e \<Rightarrow> False | Inr s' \<Rightarrow> registers s' R_R2 = 7)
   \<and> fetch (one_instr 0xE002) = Inr (0xE002, set_reg R_PC 0x3001 (one_instr 0xE002))
   \<and> drop_bit 12 (0xE002 :: u16) = OP_LEA
   \<and> (case step (one_instr 0xE002) of Inl e \<Rightarrow> False | Inr s' \<Rightarrow> registers s' R_R0 = 0x3003)
   \<and> fetch (set_reg R_R3 0xBEEF (one_instr 0x3605)) = Inr (0x3605, set_reg R_PC 0x3001 (set_reg R_R3 0xBEEF (one_instr 0x3605)))
   \<and> drop_bit 12 (0x3605 :: u16) = OP_ST
   \<and> (case step (set_reg R_R3 0xBEEF (one_instr 0x3605)) of Inl e \<Rightarrow> False | Inr s' \<Rightarrow> memory s' 0x3006 = 0xBEEF)
   \<and> fetch (set_reg R_R3 0xBEEF (set_mem 0x3002 0x5000 (one_instr 0xB601))) = Inr (0xB601, set_reg R_PC 0x3001 (set_reg R_R3 0xBEEF (set_mem 0x3002 0x5000 (one_instr 0xB601))))
   \<and> drop_bit 12 (0xB601 :: u16) = OP_STI
   \<and> (case step (set_reg R_R3 0xBEEF (set_mem 0x3002 0x5000 (one_instr 0xB601))) of Inl e \<Rightarrow> False | Inr s' \<Rightarrow> memory s' 0x5000 = 0xBEEF)
   \<and> fetch (one_instr 0x4FFD) = Inr (0x4FFD, set_reg R_PC 0x3001 (one_instr 0x4FFD))
   \<and> drop_bit 12 (0x4FFD :: u16) = OP_JSR
   \<and> (case step (one_instr 0x4FFD) of Inl e \<Rightarrow> False | Inr s' \<Rightarrow> registers s' R_PC = 0x2FFE \<and> registers s' R_R7 = 0x3001)"
  using pc_relative_to_next_instruction [of "one_instr 0x0402" "0x0402"
      "set_reg R_PC 0x3001 (one_instr 0x0402)"]
    pc_relative_to_next_instruction [of "set_mem 0x2FFF 0x8001 (one_instr 0x23FE)" "0x23FE"
      "set_reg R_PC 0x3001 (set_mem 0x2FFF 0x8001 (one_instr 0x23FE))"]
    pc_relative_to_next_instruction [of "set_mem 0x4000 7 (set_mem 0x3002 0x4000 (one_instr 0xA401))" "0xA401"
      "set_reg R_PC 0x3001 (set_mem 0x4000 7 (set_mem 0x3002 0x4000 (one_instr 0xA401)))"]
    pc_relative_to_next_instruction [of "one_instr 0xE002" "0xE002"
      "set_reg R_PC 0x3001 (one_instr 0xE002)"]
    pc_relative_to_next_instruction [of "set_reg R_R3 0xBEEF (one_instr 0x3605)" "0x3605"
      "set_reg R_PC 0x3001 (set_reg R_R3 0xBEEF (one_instr 0x3605))"]
    pc_relative_to_next_instruction [of "set_reg R_R3 0xBEEF (set_mem 0x3002 0x5000 (one_instr 0xB601))" "0xB601"
      "set_reg R_PC 0x3001 (set_reg R_R3 0xBEEF (set_mem 0x3002 0x5000 (one_instr 0xB601)))"]
    pc_relative_to_next_instruction [of "one_instr 0x4FFD" "0x4FFD"
      "set_reg R_PC 0x3001 (one_instr 0x4FFD)"]
  by (simp add: eval_defs)

lemma cmd_jsr_jsrr_r7:
  assumes "drop_bit 11 instr AND 1 = 0" and "drop_bit 6 instr AND 0x7 = 7"
  shows "cmd_jsr instr s = set_reg R_R7 (registers s R_PC) s"
  using assms by (simp add: cmd_jsr_def Let_def reg_defs set_reg_def fun_upd_idem)

text \<open>
  C10. JSRR (opcode \<open>OP_JSR\<close> with bit 11 clear) with register 7 as the base register:
  register 7 receives the incremented program counter before it is read as the base,
  so the step ends with the program counter at the instruction after the JSRR, whatever
  register 7 held before.
\<close>

theorem jsrr_r7_jumps_to_link:
  assumes "fetch s = Inr (instr, s1)"
    and "drop_bit 12 instr = OP_JSR"
    and "drop_bit 11 instr AND 1 = 0"
    and "drop_bit 6 instr AND 0x7 = 7"
  shows "step s = Inr (set_reg R_R7 (registers s R_PC + 1) s1)
         \<and> registers (set_reg R_R7 (registers s R_PC + 1) s1) R_PC = registers s R_PC + 1
         \<and> registers (set_reg R_R7 (registers s R_PC + 1) s1) R_R7 = registers s R_PC + 1"
  using assms step_dispatch [OF assms(1)] fetch_registers [OF assms(1)]
  by (simp add: dispatch_JSR cmd_jsr_jsrr_r7 reg_defs)

theorem jsrr_r7_jumps_to_link_witness:
  "fetch (set_reg R_R7 0x4000 (one_instr 0x41C0))
     = Inr (0x41C0, set_reg R_PC 0x3001 (set_reg R_R7 0x4000 (one_instr 0x41C0)))
   \<and> drop_bit 12 (0x41C0 :: u16) = OP_JSR
   \<and> drop_bit 11 (0x41C0 :: u16) AND 1 = 0
   \<and> drop_bit 6 (0x41C0 :: u16) AND 0x7 = 7
   \<and> registers (set_reg R_R7 0x4000 (one_instr 0x41C0)) R_R7 = 0x4000
   \<and> (case step (set_reg R_R7 0x4000 (one_instr 0x41C0)) of
         Inl e \<Rightarrow> False
       | Inr s' \<Rightarrow> registers s' R_PC = 0x3001 \<and> registers s' R_R7 = 0x3001)"
  using jsrr_r7_jumps_to_link [of "set_reg R_R7 0x4000 (one_instr 0x41C0)" "0x41C0"
      "set_reg R_PC 0x3001 (set_reg R_R7 0x4000 (one_instr 0x41C0))"]
  by (simp add: eval_defs)

section \<open>Arithmetic modulo 65536\<close>

lemma unat_add_u16: "unat (a + b :: u16) = (unat a + unat b) mod 65536"
  by (simp add: unat_word_ariths)

lemma add_u16_of_nat: "(a + b :: u16) = word_of_nat ((unat a + unat b) mod 65536)"
proof -
  have "unat (a + b) = unat (word_of_nat ((unat a + unat b) mod 65536) :: u16)"
    by (simp add: unat_add_u16 unat_of_nat)
  then show ?thesis
    by (simp only: word_unat_eq_iff)
qed

lemma update_flags_field:
  "registers (update_flags (unat ((x :: u16) AND 0x7)) s) (unat (x AND 0x7))
     = registers s (unat (x AND 0x7))"
  by (simp add: update_flags_registers field_not_special)

text \<open>
  C9. Sums of 16-bit values wrap, and no handler fails because a sum carries out of 16
  bits. The register that ADD writes holds the sum of its two operands modulo 65536,
  in register mode and in immediate mode. The address that LEA, a taken BR and JSR form
  from the program counter and the offset is their sum modulo 65536. LD, LDI and STI
  read, and ST writes, at the sum modulo 65536 of the program counter and the offset;
  LDR reads and STR writes at the sum modulo 65536 of the base register and the
  offset; a load whose sum modulo 65536 is inside the array ends in a state. (The
  increment of the program counter in the fetch wraps as well, but that is never seen:
  the fetch at 0xFFFF is an access outside the array.)
\<close>

theorem sums_wrap_mod_65536:
  assumes dr: "dr = unat (drop_bit 9 instr AND 0x7)"
    and sr1: "sr1 = unat (drop_bit 6 instr AND 0x7)"
    and sr2: "sr2 = unat (instr AND 0x7)"
  shows "(drop_bit 5 instr AND 0x1 = 0 \<longrightarrow>
           unat (registers (cmd_add instr s) dr)
             = (unat (registers s sr1) + unat (registers s sr2)) mod 65536)
    \<and> (drop_bit 5 instr AND 0x1 \<noteq> 0 \<longrightarrow>
           unat (registers (cmd_add instr s) dr)
             = (unat (registers s sr1) + unat (sign_extend (instr AND 0x1f) 5)) mod 65536)
    \<and> unat (registers (cmd_lea instr s) dr)
         = (unat (registers s R_PC) + unat (sign_extend (instr AND 0x1ff) 9)) mod 65536
    \<and> ((drop_bit 9 instr AND 0x7) AND registers s R_COND \<noteq> 0 \<longrightarrow>
           unat (registers (cmd_br instr s) R_PC)
             = (unat (registers s R_PC) + unat (sign_extend (instr AND 0x1ff) 9)) mod 65536)
    \<and> (drop_bit 11 instr AND 1 \<noteq> 0 \<longrightarrow>
           unat (registers (cmd_jsr instr s) R_PC)
             = (unat (registers s R_PC) + unat (sign_extend (instr AND 0x7ff) 11)) mod 65536)
    \<and> cmd_ld instr s
         = (case mem_read (word_of_nat ((unat (registers s R_PC)
                             + unat (sign_extend (instr AND 0x1ff) 9)) mod 65536)) s of
              Inl e \<Rightarrow> Inl e
            | Inr (v, s1) \<Rightarrow> Inr (update_flags dr (set_reg dr v s1)))
    \<and> ((unat (registers s R_PC) + unat (sign_extend (instr AND 0x1ff) 9)) mod 65536 < MEMORY_MAX
           \<longrightarrow> (\<exists>s'. cmd_ld instr s = Inr s'))
    \<and> cmd_ldi instr s
         = (case mem_read (word_of_nat ((unat (registers s R_PC)
                             + unat (sign_extend (instr AND 0x1ff) 9)) mod 65536)) s of
              Inl e \<Rightarrow> Inl e
            | Inr (a, s1) \<Rightarrow>
                (case mem_read a s1 of
                   Inl e \<Rightarrow> Inl e
                 | Inr (v, s2) \<Rightarrow> Inr (update_flags dr (set_reg dr v s2))))
    \<and> cmd_ldr instr s
         = (case mem_read (word_of_nat ((unat (registers s sr1)
                             + unat (sign_extend (instr AND 0x3f) 6)) mod 65536)) s of
              Inl e \<Rightarrow> Inl e
            | Inr (v, s1) \<Rightarrow> Inr (update_flags dr (set_reg dr v s1)))
    \<and> ((unat (registers s sr1) + unat (sign_extend (instr AND 0x3f) 6)) mod 65536 < MEMORY_MAX
           \<longrightarrow> (\<exists>s'. cmd_ldr instr s = Inr s'))
    \<and> cmd_st instr s
         = (if (unat (registers s R_PC) + unat (sign_extend (instr AND 0x1ff) 9)) mod 65536
                 < MEMORY_MAX
            then Inr (set_mem ((unat (registers s R_PC)
                                 + unat (sign_extend (instr AND 0x1ff) 9)) mod 65536)
                        (registers s dr) s)
            else Inl OutOfBounds)
    \<and> cmd_sti instr s
         = (case mem_read (word_of_nat ((unat (registers s R_PC)
                             + unat (sign_extend (instr AND 0x1ff) 9)) mod 65536)) s of
              Inl e \<Rightarrow> Inl e
            | Inr (a, s1) \<Rightarrow> mem_write a (registers s1 dr) s1)
    \<and> cmd_str instr s
         = (if (unat (registers s sr1) + unat (sign_extend (instr AND 0x3f) 6)) mod 65536
                 < MEMORY_MAX
            then Inr (set_mem ((unat (registers s sr1)
                                 + unat (sign_extend (instr AND 0x3f) 6)) mod 65536)
                        (registers s dr) s)
            else Inl OutOfBounds)"
proof -
  have add: "unat (registers (cmd_add instr s) dr)
      = (unat (registers s sr1)
          + unat (if drop_bit 5 instr AND 0x1 \<noteq> 0 then sign_extend (instr AND 0x1f) 5
                  else registers s sr2)) mod 65536"
    unfolding assms cmd_add_def Let_def update_flags_field
    by (simp add: unat_add_u16)
  have lea: "unat (registers (cmd_lea instr s) dr)
         = (unat (registers s R_PC) + unat (sign_extend (instr AND 0x1ff) 9)) mod 65536"
    unfolding assms cmd_lea_def Let_def update_flags_field
    by (simp add: unat_add_u16)
  have br: "(drop_bit 9 instr AND 0x7) AND registers s R_COND \<noteq> 0 \<Longrightarrow>
           unat (registers (cmd_br instr s) R_PC)
             = (unat (registers s R_PC) + unat (sign_extend (instr AND 0x1ff) 9)) mod 65536"
    by (simp add: cmd_br_def Let_def unat_add_u16)
  have jsr: "drop_bit 11 instr AND 1 \<noteq> 0 \<Longrightarrow>
           unat (registers (cmd_jsr instr s) R_PC)
             = (unat (registers s R_PC) + unat (sign_extend (instr AND 0x7ff) 11)) mod 65536"
    by (simp add: cmd_jsr_def Let_def unat_add_u16 reg_defs)
  have ld: "cmd_ld instr s
         = (case mem_read (word_of_nat ((unat (registers s R_PC)
                             + unat (sign_extend (instr AND 0x1ff) 9)) mod 65536)) s of
              Inl e \<Rightarrow> Inl e
            | Inr (v, s1) \<Rightarrow> Inr (update_flags dr (set_reg dr v s1)))"
    unfolding assms cmd_ld_def Let_def
    by (simp only: add_u16_of_nat [symmetric])
  have ld_ok: "\<exists>s'. cmd_ld instr s = Inr s'"
    if "(unat (registers s R_PC) + unat (sign_extend (instr AND 0x1ff) 9)) mod 65536 < MEMORY_MAX"
  proof -
    have "unat (registers s R_PC + sign_extend (instr AND 0x1ff) 9) < MEMORY_MAX"
      using that by (simp add: unat_add_u16)
    then obtain v s1 where "mem_read (registers s R_PC + sign_extend (instr AND 0x1ff) 9) s
        = Inr (v, s1)"
      using mem_read_in_bounds by blast
    then show ?thesis by (simp add: cmd_ld_def Let_def)
  qed
  have ldi: "cmd_ldi instr s
         = (case mem_read (word_of_nat ((unat (registers s R_PC)
                             + unat (sign_extend (instr AND 0x1ff) 9)) mod 65536)) s of
              Inl e \<Rightarrow> Inl e
            | Inr (a, s1) \<Rightarrow>
                (case mem_read a s1 of
                   Inl e \<Rightarrow> Inl e
                 | Inr (v, s2) \<Rightarrow> Inr (update_flags dr (set_reg dr v s2))))"
    unfolding assms cmd_ldi_def Let_def
    by (simp only: add_u16_of_nat [symmetric])
  have ldr: "cmd_ldr instr s
         = (case mem_read (word_of_nat ((unat (registers s sr1)
                             + unat (sign_extend (instr AND 0x3f) 6)) mod 65536)) s of
              Inl e \<Rightarrow> Inl e
            | Inr (v, s1) \<Rightarrow> Inr (update_flags dr (set_reg dr v s1)))"
    unfolding assms cmd_ldr_def Let_def
    by (simp only: add_u16_of_nat [symmetric])
  have ldr_ok: "\<exists>s'. cmd_ldr instr s = Inr s'"
    if "(unat (registers s sr1) + unat (sign_extend (instr AND 0x3f) 6)) mod 65536 < MEMORY_MAX"
  proof -
    have "unat (registers s sr1 + sign_extend (instr AND 0x3f) 6) < MEMORY_MAX"
      using that by (simp add: unat_add_u16)
    then obtain v s1 where "mem_read (registers s sr1 + sign_extend (instr AND 0x3f) 6) s
        = Inr (v, s1)"
      using mem_read_in_bounds by blast
    then show ?thesis by (simp add: cmd_ldr_def Let_def sr1)
  qed
  have st: "cmd_st instr s
         = (if (unat (registers s R_PC) + unat (sign_extend (instr AND 0x1ff) 9)) mod 65536
                 < MEMORY_MAX
            then Inr (set_mem ((unat (registers s R_PC)
                                 + unat (sign_extend (instr AND 0x1ff) 9)) mod 65536)
                        (registers s dr) s)
            else Inl OutOfBounds)"
    by (simp add: cmd_st_def Let_def mem_write_def unat_add_u16 dr)
  have sti: "cmd_sti instr s
         = (case mem_read (word_of_nat ((unat (registers s R_PC)
                             + unat (sign_extend (instr AND 0x1ff) 9)) mod 65536)) s of
              Inl e \<Rightarrow> Inl e
            | Inr (a, s1) \<Rightarrow> mem_write a (registers s1 dr) s1)"
    unfolding assms cmd_sti_def Let_def
    by (simp only: add_u16_of_nat [symmetric])
  have str: "cmd_str instr s
         = (if (unat (registers s sr1) + unat (sign_extend (instr AND 0x3f) 6)) mod 65536
                 < MEMORY_MAX
            then Inr (set_mem ((unat (registers s sr1)
                                 + unat (sign_extend (instr AND 0x3f) 6)) mod 65536)
                        (registers s dr) s)
            else Inl OutOfBounds)"
    by (simp add: cmd_str_def Let_def mem_write_def unat_add_u16 dr sr1)
  show ?thesis
    using add lea br jsr ld ld_ok ldi ldr ldr_ok st sti str by simp
qed

theorem sums_wrap_mod_65536_witness:
  "(0 :: nat) = unat (drop_bit 9 (0x1021 :: u16) AND 0x7)
   \<and> (0 :: nat) = unat (drop_bit 6 (0x1021 :: u16) AND 0x7)
   \<and> (1 :: nat) = unat ((0x1021 :: u16) AND 0x7)
   \<and> drop_bit 5 (0x1021 :: u16) AND 0x1 \<noteq> 0
   \<and> registers (set_reg R_R0 0xFFFF (one_instr 0x1021)) 0 = 0xFFFF
   \<and> sign_extend (0x1021 AND 0x1f) 5 = 1
   \<and> registers (cmd_add 0x1021 (set_reg R_R0 0xFFFF (one_instr 0x1021))) 0 = 0
   \<and> unat (registers (cmd_add 0x1021 (set_reg R_R0 0xFFFF (one_instr 0x1021))) 0) = (unat (registers (set_reg R_R0 0xFFFF (one_instr 0x1021)) 0) + unat (sign_extend (0x1021 AND 0x1f) 5)) mod 65536
   \<and> (1 :: nat) = unat (drop_bit 9 (0x1283 :: u16) AND 0x7)
   \<and> (2 :: nat) = unat (drop_bit 6 (0x1283 :: u16) AND 0x7)
   \<and> (3 :: nat) = unat ((0x1283 :: u16) AND 0x7)
   \<and> drop_bit 5 (0x1283 :: u16) AND 0x1 = 0
   \<and> registers (set_reg R_R3 0x8002 (set_reg R_R2 0xFFFF (one_instr 0x1283))) 2 = 0xFFFF
   \<and> registers (set_reg R_R3 0x8002 (set_reg R_R2 0xFFFF (one_instr 0x1283))) 3 = 0x8002
   \<and> registers (cmd_add 0x1283 (set_reg R_R3 0x8002 (set_reg R_R2 0xFFFF (one_instr 0x1283)))) 1 = 0x8001
   \<and> unat (registers (cmd_add 0x1283 (set_reg R_R3 0x8002 (set_reg R_R2 0xFFFF (one_instr 0x1283)))) 1) = (unat (registers (set_reg R_R3 0x8002 (set_reg R_R2 0xFFFF (one_instr 0x1283))) 2) + unat (registers (set_reg R_R3 0x8002 (set_reg R_R2 0xFFFF (one_instr 0x1283))) 3)) mod 65536
   \<and> (2 :: nat) = unat (drop_bit 9 (0x05FD :: u16) AND 0x7)
   \<and> (7 :: nat) = unat (drop_bit 6 (0x05FD :: u16) AND 0x7)
   \<and> (5 :: nat) = unat ((0x05FD :: u16) AND 0x7)
   \<and> (drop_bit 9 (0x05FD :: u16) AND 0x7) AND registers (set_reg R_PC 0x3001 (one_instr 0x05FD)) R_COND \<noteq> 0
   \<and> registers (set_reg R_PC 0x3001 (one_instr 0x05FD)) R_PC = 0x3001
   \<and> sign_extend (0x05FD AND 0x1ff) 9 = 0xFFFD
   \<and> registers (cmd_br 0x05FD (set_reg R_PC 0x3001 (one_instr 0x05FD))) R_PC = 0x2FFE
   \<and> unat (registers (cmd_br 0x05FD (set_reg R_PC 0x3001 (one_instr 0x05FD))) R_PC) = (unat (registers (set_reg R_PC 0x3001 (one_instr 0x05FD)) R_PC) + unat (sign_extend (0x05FD AND 0x1ff) 9)) mod 65536
   \<and> (7 :: nat) = unat (drop_bit 9 (0x4FFD :: u16) AND 0x7)
   \<and> (7 :: nat) = unat (drop_bit 6 (0x4FFD :: u16) AND 0x7)
   \<and> (5 :: nat) = unat ((0x4FFD :: u16) AND 0x7)
   \<and> drop_bit 11 (0x4FFD :: u16) AND 1 \<noteq> 0
   \<and> sign_extend (0x4FFD AND 0x7ff) 11 = 0xFFFD
   \<and> registers (cmd_jsr 0x4FFD (set_reg R_PC 0x3001 (one_instr 0x4FFD))) R_PC = 0x2FFE
   \<and> unat (registers (cmd_jsr 0x4FFD (set_reg R_PC 0x3001 (one_instr 0x4FFD))) R_PC) = (unat (registers (set_reg R_PC 0x3001 (one_instr 0x4FFD)) R_PC) + unat (sign_extend (0x4FFD AND 0x7ff) 11)) mod 65536
   \<and> (1 :: nat) = unat (drop_bit 9 (0x6282 :: u16) AND 0x7)
   \<and> (2 :: nat) = unat (drop_bit 6 (0x6282 :: u16) AND 0x7)
   \<and> (2 :: nat) = unat ((0x6282 :: u16) AND 0x7)
   \<and> (unat (registers (set_reg R_R2 0xFFFF (set_mem 1 0x1234 (one_instr 0x6282))) 2) + unat (sign_extend (0x6282 AND 0x3f) 6)) mod 65536 < MEMORY_MAX
   \<and> (unat (registers (set_reg R_R2 0xFFFF (set_mem 1 0x1234 (one_instr 0x6282))) 2) + unat (sign_extend (0x6282 AND 0x3f) 6)) mod 65536 = 1
   \<and> (case cmd_ldr 0x6282 (set_reg R_R2 0xFFFF (set_mem 1 0x1234 (one_instr 0x6282))) of Inl e \<Rightarrow> False | Inr s' \<Rightarrow> registers s' 1 = 0x1234)
   \<and> (\<exists>s'. cmd_ldr 0x6282 (set_reg R_R2 0xFFFF (set_mem 1 0x1234 (one_instr 0x6282))) = Inr s')
   \<and> (1 :: nat) = unat (drop_bit 9 (0x23FE :: u16) AND 0x7)
   \<and> (7 :: nat) = unat (drop_bit 6 (0x23FE :: u16) AND 0x7)
   \<and> (6 :: nat) = unat ((0x23FE :: u16) AND 0x7)
   \<and> (unat (registers (set_reg R_PC 0x3001 (set_mem 0x2FFF 0x8001 (one_instr 0x23FE))) R_PC) + unat (sign_extend (0x23FE AND 0x1ff) 9)) mod 65536 < MEMORY_MAX
   \<and> (unat (registers (set_reg R_PC 0x3001 (set_mem 0x2FFF 0x8001 (one_instr 0x23FE))) R_PC) + unat (sign_extend (0x23FE AND 0x1ff) 9)) mod 65536 = 0x2FFF
   \<and> (case cmd_ld 0x23FE (set_reg R_PC 0x3001 (set_mem 0x2FFF 0x8001 (one_instr 0x23FE))) of Inl e \<Rightarrow> False | Inr s' \<Rightarrow> registers s' 1 = 0x8001)
   \<and> (\<exists>s'. cmd_ld 0x23FE (set_reg R_PC 0x3001 (set_mem 0x2FFF 0x8001 (one_instr 0x23FE))) = Inr s')
   \<and> (3 :: nat) = unat (drop_bit 9 (0x7682 :: u16) AND 0x7)
   \<and> (2 :: nat) = unat (drop_bit 6 (0x7682 :: u16) AND 0x7)
   \<and> (2 :: nat) = unat ((0x7682 :: u16) AND 0x7)
   \<and> (unat (registers (set_reg R_R3 0xBEEF (set_reg R_R2 0xFFFF (one_instr 0x7682))) 2) + unat (sign_extend (0x7682 AND 0x3f) 6)) mod 65536 = 1
   \<and> cmd_str 0x7682 (set_reg R_R3 0xBEEF (set_reg R_R2 0xFFFF (one_instr 0x7682))) = Inr (set_mem 1 0xBEEF (set_reg R_R3 0xBEEF (set_reg R_R2 0xFFFF (one_instr 0x7682))))
   \<and> cmd_str 0x7682 (set_reg R_R3 0xBEEF (set_reg R_R2 0xFFFF (one_instr 0x7682))) = (if (unat (registers (set_reg R_R3 0xBEEF (set_reg R_R2 0xFFFF (one_instr 0x7682))) 2) + unat (sign_extend (0x7682 AND 0x3f) 6)) mod 65536 < MEMORY_MAX
            then Inr (set_mem ((unat (registers (set_reg R_R3 0xBEEF (set_reg R_R2 0xFFFF (one_instr 0x7682))) 2) + unat (sign_extend (0x7682 AND 0x3f) 6)) mod 65536) (registers (set_reg R_R3 0xBEEF (set_reg R_R2 0xFFFF (one_instr 0x7682))) 3) (set_reg R_R3 0xBEEF (set_reg R_R2 0xFFFF (one_instr 0x7682))))
            else Inl OutOfBounds)"
proof -
  have ah: "(0 :: nat) = unat (drop_bit 9 (0x1021 :: u16) AND 0x7)"
    "(0 :: nat) = unat (drop_bit 6 (0x1021 :: u16) AND 0x7)"
    "(1 :: nat) = unat ((0x1021 :: u16) AND 0x7)"
    by simp_all
  have ac0: "drop_bit 5 (0x1021 :: u16) AND 0x1 \<noteq> 0"
    by (simp add: eval_defs)
  have ae0: "registers (set_reg R_R0 0xFFFF (one_instr 0x1021)) 0 = 0xFFFF"
    by (simp add: eval_defs)
  have ae1: "sign_extend (0x1021 AND 0x1f) 5 = 1"
    by (simp add: eval_defs)
  have ae2: "registers (cmd_add 0x1021 (set_reg R_R0 0xFFFF (one_instr 0x1021))) 0 = 0"
    by (simp add: eval_defs)
  have ad: "unat (registers (cmd_add 0x1021 (set_reg R_R0 0xFFFF (one_instr 0x1021))) 0) = (unat (registers (set_reg R_R0 0xFFFF (one_instr 0x1021)) 0) + unat (sign_extend (0x1021 AND 0x1f) 5)) mod 65536"
    using sums_wrap_mod_65536 [OF ah, of "set_reg R_R0 0xFFFF (one_instr 0x1021)", THEN conjunct2, THEN conjunct1] ac0
    by blast
  have bh: "(1 :: nat) = unat (drop_bit 9 (0x1283 :: u16) AND 0x7)"
    "(2 :: nat) = unat (drop_bit 6 (0x1283 :: u16) AND 0x7)"
    "(3 :: nat) = unat ((0x1283 :: u16) AND 0x7)"
    by simp_all
  have bc0: "drop_bit 5 (0x1283 :: u16) AND 0x1 = 0"
    by (simp add: eval_defs)
  have be0: "registers (set_reg R_R3 0x8002 (set_reg R_R2 0xFFFF (one_instr 0x1283))) 2 = 0xFFFF"
    by (simp add: eval_defs)
  have be1: "registers (set_reg R_R3 0x8002 (set_reg R_R2 0xFFFF (one_instr 0x1283))) 3 = 0x8002"
    by (simp add: eval_defs)
  have be2: "registers (cmd_add 0x1283 (set_reg R_R3 0x8002 (set_reg R_R2 0xFFFF (one_instr 0x1283)))) 1 = 0x8001"
    by (simp add: eval_defs)
  have bd: "unat (registers (cmd_add 0x1283 (set_reg R_R3 0x8002 (set_reg R_R2 0xFFFF (one_instr 0x1283)))) 1) = (unat (registers (set_reg R_R3 0x8002 (set_reg R_R2 0xFFFF (one_instr 0x1283))) 2) + unat (registers (set_reg R_R3 0x8002 (set_reg R_R2 0xFFFF (one_instr 0x1283))) 3)) mod 65536"
    using sums_wrap_mod_65536 [OF bh, of "set_reg R_R3 0x8002 (set_reg R_R2 0xFFFF (one_instr 0x1283))", THEN conjunct1] bc0
    by blast
  have ch: "(2 :: nat) = unat (drop_bit 9 (0x05FD :: u16) AND 0x7)"
    "(7 :: nat) = unat (drop_bit 6 (0x05FD :: u16) AND 0x7)"
    "(5 :: nat) = unat ((0x05FD :: u16) AND 0x7)"
    by simp_all
  have cc0: "(drop_bit 9 (0x05FD :: u16) AND 0x7) AND registers (set_reg R_PC 0x3001 (one_instr 0x05FD)) R_COND \<noteq> 0"
    by (simp add: eval_defs)
  have ce0: "registers (set_reg R_PC 0x3001 (one_instr 0x05FD)) R_PC = 0x3001"
    by (simp add: eval_defs)
  have ce1: "sign_extend (0x05FD AND 0x1ff) 9 = 0xFFFD"
    by (simp add: eval_defs)
  have ce2: "registers (cmd_br 0x05FD (set_reg R_PC 0x3001 (one_instr 0x05FD))) R_PC = 0x2FFE"
    by (simp add: eval_defs)
  have cd: "unat (registers (cmd_br 0x05FD (set_reg R_PC 0x3001 (one_instr 0x05FD))) R_PC) = (unat (registers (set_reg R_PC 0x3001 (one_instr 0x05FD)) R_PC) + unat (sign_extend (0x05FD AND 0x1ff) 9)) mod 65536"
    using sums_wrap_mod_65536 [OF ch, of "set_reg R_PC 0x3001 (one_instr 0x05FD)", THEN conjunct2, THEN conjunct2, THEN conjunct2, THEN conjunct1] cc0
    by blast
  have dh: "(7 :: nat) = unat (drop_bit 9 (0x4FFD :: u16) AND 0x7)"
    "(7 :: nat) = unat (drop_bit 6 (0x4FFD :: u16) AND 0x7)"
    "(5 :: nat) = unat ((0x4FFD :: u16) AND 0x7)"
    by simp_all
  have dc0: "drop_bit 11 (0x4FFD :: u16) AND 1 \<noteq> 0"
    by (simp add: eval_defs)
  have de0: "sign_extend (0x4FFD AND 0x7ff) 11 = 0xFFFD"
    by (simp add: eval_defs)
  have de1: "registers (cmd_jsr 0x4FFD (set_reg R_PC 0x3001 (one_instr 0x4FFD))) R_PC = 0x2FFE"
    by (simp add: eval_defs)
  have dd: "unat (registers (cmd_jsr 0x4FFD (set_reg R_PC 0x3001 (one_instr 0x4FFD))) R_PC) = (unat (registers (set_reg R_PC 0x3001 (one_instr 0x4FFD)) R_PC) + unat (sign_extend (0x4FFD AND 0x7ff) 11)) mod 65536"
    using sums_wrap_mod_65536 [OF dh, of "set_reg R_PC 0x3001 (one_instr 0x4FFD)", THEN conjunct2, THEN conjunct2, THEN conjunct2, THEN conjunct2, THEN conjunct1] dc0
    by blast
  have eh: "(1 :: nat) = unat (drop_bit 9 (0x6282 :: u16) AND 0x7)"
    "(2 :: nat) = unat (drop_bit 6 (0x6282 :: u16) AND 0x7)"
    "(2 :: nat) = unat ((0x6282 :: u16) AND 0x7)"
    by simp_all
  have ec0: "(unat (registers (set_reg R_R2 0xFFFF (set_mem 1 0x1234 (one_instr 0x6282))) 2) + unat (sign_extend (0x6282 AND 0x3f) 6)) mod 65536 < MEMORY_MAX"
    by (simp add: eval_defs)
  have ee0: "(unat (registers (set_reg R_R2 0xFFFF (set_mem 1 0x1234 (one_instr 0x6282))) 2) + unat (sign_extend (0x6282 AND 0x3f) 6)) mod 65536 = 1"
    by (simp add: eval_defs)
  have ee1: "(case cmd_ldr 0x6282 (set_reg R_R2 0xFFFF (set_mem 1 0x1234 (one_instr 0x6282))) of Inl e \<Rightarrow> False | Inr s' \<Rightarrow> registers s' 1 = 0x1234)"
    by (simp add: eval_defs)
  have ed: "\<exists>s'. cmd_ldr 0x6282 (set_reg R_R2 0xFFFF (set_mem 1 0x1234 (one_instr 0x6282))) = Inr s'"
    using sums_wrap_mod_65536 [OF eh, of "set_reg R_R2 0xFFFF (set_mem 1 0x1234 (one_instr 0x6282))", THEN conjunct2, THEN conjunct2, THEN conjunct2, THEN conjunct2, THEN conjunct2, THEN conjunct2, THEN conjunct2, THEN conjunct2, THEN conjunct2, THEN conjunct1] ec0
    by blast
  have fh: "(1 :: nat) = unat (drop_bit 9 (0x23FE :: u16) AND 0x7)"
    "(7 :: nat) = unat (drop_bit 6 (0x23FE :: u16) AND 0x7)"
    "(6 :: nat) = unat ((0x23FE :: u16) AND 0x7)"
    by simp_all
  have fc0: "(unat (registers (set_reg R_PC 0x3001 (set_mem 0x2FFF 0x8001 (one_instr 0x23FE))) R_PC) + unat (sign_extend (0x23FE AND 0x1ff) 9)) mod 65536 < MEMORY_MAX"
    by (simp add: eval_defs)
  have fe0: "(unat (registers (set_reg R_PC 0x3001 (set_mem 0x2FFF 0x8001 (one_instr 0x23FE))) R_PC) + unat (sign_extend (0x23FE AND 0x1ff) 9)) mod 65536 = 0x2FFF"
    by (simp add: eval_defs)
  have fe1: "(case cmd_ld 0x23FE (set_reg R_PC 0x3001 (set_mem 0x2FFF 0x8001 (one_instr 0x23FE))) of Inl e \<Rightarrow> False | Inr s' \<Rightarrow> registers s' 1 = 0x8001)"
    by (simp add: eval_defs)
  have fd: "\<exists>s'. cmd_ld 0x23FE (set_reg R_PC 0x3001 (set_mem 0x2FFF 0x8001 (one_instr 0x23FE))) = Inr s'"
    using sums_wrap_mod_65536 [OF fh, of "set_reg R_PC 0x3001 (set_mem 0x2FFF 0x8001 (one_instr 0x23FE))", THEN conjunct2, THEN conjunct2, THEN conjunct2, THEN conjunct2, THEN conjunct2, THEN conjunct2, THEN conjunct1] fc0
    by blast
  have gh: "(3 :: nat) = unat (drop_bit 9 (0x7682 :: u16) AND 0x7)"
    "(2 :: nat) = unat (drop_bit 6 (0x7682 :: u16) AND 0x7)"
    "(2 :: nat) = unat ((0x7682 :: u16) AND 0x7)"
    by simp_all
  have ge0: "(unat (registers (set_reg R_R3 0xBEEF (set_reg R_R2 0xFFFF (one_instr 0x7682))) 2) + unat (sign_extend (0x7682 AND 0x3f) 6)) mod 65536 = 1"
    by (simp add: eval_defs)
  have ge1: "cmd_str 0x7682 (set_reg R_R3 0xBEEF (set_reg R_R2 0xFFFF (one_instr 0x7682))) = Inr (set_mem 1 0xBEEF (set_reg R_R3 0xBEEF (set_reg R_R2 0xFFFF (one_instr 0x7682))))"
    by (simp add: eval_defs)
  have gd: "cmd_str 0x7682 (set_reg R_R3 0xBEEF (set_reg R_R2 0xFFFF (one_instr 0x7682))) = (if (unat (registers (set_reg R_R3 0xBEEF (set_reg R_R2 0xFFFF (one_instr 0x7682))) 2) + unat (sign_extend (0x7682 AND 0x3f) 6)) mod 65536 < MEMORY_MAX
            then Inr (set_mem ((unat (registers (set_reg R_R3 0xBEEF (set_reg R_R2 0xFFFF (one_instr 0x7682))) 2) + unat (sign_extend (0x7682 AND 0x3f) 6)) mod 65536) (registers (set_reg R_R3 0xBEEF (set_reg R_R2 0xFFFF (one_instr 0x7682))) 3) (set_reg R_R3 0xBEEF (set_reg R_R2 0xFFFF (one_instr 0x7682))))
            else Inl OutOfBounds)"
    by (rule sums_wrap_mod_65536 [OF gh, of "set_reg R_R3 0xBEEF (set_reg R_R2 0xFFFF (one_instr 0x7682))", THEN conjunct2, THEN conjunct2, THEN conjunct2, THEN conjunct2, THEN conjunct2, THEN conjunct2, THEN conjunct2, THEN conjunct2, THEN conjunct2, THEN conjunct2, THEN conjunct2, THEN conjunct2])
  show ?thesis
    by (intro conjI) (fact ac0 ae0 ae1 ae2 ad ah bc0 be0 be1 be2 bd bh cc0 ce0 ce1 ce2 cd ch dc0 de0 de1 dd dh ec0 ee0 ee1 ed eh fc0 fe0 fe1 fd fh ge0 ge1 gd gh)+
qed

section \<open>TRAP PUTSP\<close>

lemma putsp_turn:
  assumes "c < MEMORY_MAX" and "memory s c \<noteq> 0"
  shows "putsp_loop c s = putsp_loop (Suc c) (s\<lparr>stdout := stdout s @ putsp_bytes (memory s c)\<rparr>)"
  using assms by (subst putsp_loop.simps) (simp add: Let_def putc_def putsp_bytes_def)

lemma putsp_stop:
  assumes "c < MEMORY_MAX" and "memory s c = 0"
  shows "putsp_loop c s = Inr s"
  using assms by (subst putsp_loop.simps) simp

lemma putsp_loop_output:
  assumes "c \<le> n" and "n < MEMORY_MAX" and "memory s n = 0"
    and "\<forall>i. c \<le> i \<and> i < n \<longrightarrow> memory s i \<noteq> 0"
  shows "putsp_loop c s
           = Inr (s\<lparr>stdout := stdout s @ concat (map (\<lambda>i. putsp_bytes (memory s i)) [c..<n])\<rparr>)"
  using assms
proof (induction "n - c" arbitrary: c s)
  case 0
  then have "c = n" by simp
  with 0 show ?case by (simp add: putsp_stop)
next
  case (Suc k)
  then have lt: "c < n" and nz: "memory s c \<noteq> 0" by auto
  let ?s = "s\<lparr>stdout := stdout s @ putsp_bytes (memory s c)\<rparr>"
  have "putsp_loop (Suc c) ?s
          = Inr (?s\<lparr>stdout := stdout ?s @ concat (map (\<lambda>i. putsp_bytes (memory ?s i)) [Suc c..<n])\<rparr>)"
    using Suc.prems Suc.hyps(2) lt by (intro Suc.hyps(1)) auto
  moreover have "putsp_loop c s = putsp_loop (Suc c) ?s"
    using lt Suc.prems(2) nz by (intro putsp_turn) auto
  ultimately show ?case
    using lt by (simp add: upt_conv_Cons)
qed

lemma putsp_loop_no_zero:
  assumes "\<forall>i. c \<le> i \<and> i < MEMORY_MAX \<longrightarrow> memory s i \<noteq> 0"
  shows "putsp_loop c s = Inl OutOfBounds"
  using assms
proof (induction "MEMORY_MAX - c" arbitrary: c s)
  case 0
  then show ?case by (subst putsp_loop.simps) simp
next
  case (Suc k)
  then have lt: "c < MEMORY_MAX" and nz: "memory s c \<noteq> 0" by auto
  let ?s = "s\<lparr>stdout := stdout s @ putsp_bytes (memory s c)\<rparr>"
  have "putsp_loop (Suc c) ?s = Inl OutOfBounds"
    using Suc.prems Suc.hyps(2) by (intro Suc.hyps(1)) auto
  then show ?case
    using putsp_turn [OF lt nz] by simp
qed

lemma high_byte_nonzero:
  assumes "(w :: u16) \<noteq> 0" and "w AND 0xff = 0"
  shows "(ucast (drop_bit 8 w) :: byte) \<noteq> 0"
proof
  assume hi: "(ucast (drop_bit 8 w) :: byte) = 0"
  have ff: "(0xff :: u16) = mask 8"
    by (simp add: mask_eq_exp_minus_1)
  have "w = 0"
  proof (rule bit_word_eqI)
    fix n assume "n < LENGTH(16)"
    show "bit w n = bit (0 :: u16) n"
    proof (cases "n < 8")
      case True
      have "bit (w AND mask 8) n = bit w n"
        using True by (simp add: bit_simps)
      then show ?thesis using assms(2) by (simp add: ff)
    next
      case False
      then obtain m where m: "n = 8 + m" by (metis le_add_diff_inverse not_less)
      have "bit (ucast (drop_bit 8 w) :: byte) m = bit w (8 + m)"
        using \<open>n < LENGTH(16)\<close> m by (simp add: bit_simps)
      then show ?thesis using hi m by simp
    qed
  qed
  with assms(1) show False by simp
qed

lemma putsp_bytes_low_zero:
  "w \<noteq> 0 \<Longrightarrow> w AND 0xff = 0 \<Longrightarrow> putsp_bytes w = [0, ucast (drop_bit 8 w)]"
  by (simp add: putsp_bytes_def high_byte_nonzero)

text \<open>
  C4, as the code has it. When the first zero word at or after the address in register
  0 is at \<open>n\<close>, inside the array, TRAP PUTSP writes for each word before it, in order,
  the low byte and then the high byte if that is not zero, and stops at \<open>n\<close>. A zero low
  byte is written like any other: for a word with a zero low byte and a nonzero high
  byte the loop writes a zero byte and the high byte, and goes on with the next word.
\<close>

theorem trap_putsp_output:
  assumes "instr AND 0xFF = TRAP_PUTSP"
    and "unat (registers s R_R0) \<le> n" and "n < MEMORY_MAX" and "memory s n = 0"
    and "\<forall>i. unat (registers s R_R0) \<le> i \<and> i < n \<longrightarrow> memory s i \<noteq> 0"
  shows "cmd_trap instr s
           = Inr ((set_reg R_R7 (registers s R_PC) s)
                    \<lparr>stdout := stdout s @ concat (map (\<lambda>i. putsp_bytes (memory s i))
                                                 [unat (registers s R_R0)..<n])\<rparr>)
         \<and> (\<forall>w. w \<noteq> 0 \<and> w AND 0xff = 0 \<longrightarrow> putsp_bytes w = [0, ucast (drop_bit 8 w)])"
proof -
  let ?s = "set_reg R_R7 (registers s R_PC) s"
  have "cmd_trap instr s = putsp_loop (unat (registers s R_R0)) ?s"
    using assms(1) by (simp add: cmd_trap_def Let_def trap_defs reg_defs)
  also have "\<dots> = Inr (?s\<lparr>stdout := stdout ?s @ concat (map (\<lambda>i. putsp_bytes (memory ?s i))
                                                 [unat (registers s R_R0)..<n])\<rparr>)"
    using assms(2-5) by (intro putsp_loop_output) simp_all
  finally show ?thesis
    by (simp add: putsp_bytes_low_zero)
qed

theorem trap_putsp_output_witness:
  "(0xF024 :: u16) AND 0xFF = TRAP_PUTSP
   \<and> unat (registers putsp_example R_R0) = 0x3001
   \<and> (0x3003 :: nat) < MEMORY_MAX
   \<and> memory putsp_example 0x3001 = 0x4100
   \<and> memory putsp_example 0x3002 = 0x0042
   \<and> memory putsp_example 0x3003 = 0
   \<and> cmd_trap 0xF024 putsp_example
       = Inr ((set_reg R_R7 (registers putsp_example R_PC) putsp_example)
                \<lparr>stdout := [0x00, 0x41, 0x42]\<rparr>)
   \<and> putsp_bytes 0x4100 = [0x00, 0x41]"
proof -
  have v: "(0xF024 :: u16) AND 0xFF = TRAP_PUTSP"
    by (simp add: trap_defs)
  have r0: "unat (registers putsp_example R_R0) = 0x3001"
    by (simp add: putsp_example_def)
  have b: "(0x3003 :: nat) < MEMORY_MAX"
    by (simp add: mem_defs)
  have m: "memory putsp_example 0x3001 = 0x4100" "memory putsp_example 0x3002 = 0x0042"
    "memory putsp_example 0x3003 = 0"
    by (simp_all add: putsp_example_def one_instr_def boot_def PC_START_def)
  have out: "stdout putsp_example = []"
    by (simp add: putsp_example_def one_instr_def boot_def)
  have nz: "\<forall>i. unat (registers putsp_example R_R0) \<le> i \<and> i < 0x3003
              \<longrightarrow> memory putsp_example i \<noteq> 0"
  proof (intro allI impI)
    fix i :: nat
    assume "unat (registers putsp_example R_R0) \<le> i \<and> i < 0x3003"
    then have "i = 0x3001 \<or> i = 0x3002"
      unfolding r0 by arith
    then show "memory putsp_example i \<noteq> 0"
      using m by auto
  qed
  have le: "unat (registers putsp_example R_R0) \<le> 0x3003"
    by (simp add: r0)
  have l: "[unat (registers putsp_example R_R0)..<0x3003] = [0x3001, 0x3002]"
    unfolding r0 by (simp add: upt_conv_Cons)
  note t = trap_putsp_output [OF v le b m(3) nz]
  have bytes: "putsp_bytes 0x4100 = [0x00, 0x41]" "putsp_bytes 0x0042 = [0x42]"
    by (simp_all add: putsp_bytes_def)
  have "cmd_trap 0xF024 putsp_example
       = Inr ((set_reg R_R7 (registers putsp_example R_PC) putsp_example)
                \<lparr>stdout := [0x00, 0x41, 0x42]\<rparr>)"
    using t by (simp add: l m out bytes)
  with v r0 b m bytes show ?thesis
    by blast
qed

text \<open>
  C4, as stated, ends the output at a word with a zero low byte and a nonzero high byte.
  On the words 0x4100, 0x0042, 0 the program writes the bytes 0x00, 0x41 and then 0x42
  of the following word, where the stated behaviour writes nothing.
\<close>

theorem putsp_not_truncated:
  "map (memory putsp_example) [0x3001, 0x3002, 0x3003] = [0x4100, 0x0042, 0]
   \<and> registers putsp_example R_R0 = 0x3001
   \<and> putsp_spec [0x4100, 0x0042, 0] = []
   \<and> (case step putsp_example of
         Inl e \<Rightarrow> False
       | Inr s' \<Rightarrow> stdout s' = [0x00, 0x41, 0x42]
           \<and> stdout s' \<noteq> stdout putsp_example @ putsp_spec [0x4100, 0x0042, 0])"
  by (simp add: putsp_example_def eval_defs putsp_loop.simps)

end
